theory Spec2Isabelle
  imports Complex_Main
begin

section \<open>Numbers, vectors and failures\<close>

text \<open>
  The agent of \<^verbatim>\<open>baselines/TRPO/agent.py\<close> computes on floating-point numbers. The
  model computes on exact reals, with two exceptions where the floating-point arithmetic
  decides what the code does: the signed zero of a numpy float in the acceptance test of
  the line search, and the rounding of the float32 tensors that hold the advantage of a
  batch. A 1-D tensor is a list of reals, and the places where a computation raises or
  leaves the finite numbers are failure values of the model. There are five of them.
  \<^item> \<open>ZeroDivisionError\<close>: a quotient of two Python floats with a zero divisor
    (\<^verbatim>\<open>Tensor.dot\<close> yields a Python float, so the quotients of \<^verbatim>\<open>cg\<close> are such).
  \<^item> \<open>NonFinite\<close>: tensor or numpy arithmetic that yields \<^verbatim>\<open>nan\<close> or \<^verbatim>\<open>inf\<close>
    instead of raising (a tensor divided by zero, the standard deviation of one
    element, the square root of a negative number, a number beyond the range of the
    floats). The code goes on computing with such values. The model follows it where
    what the code does next is determined: a batch whose advantage or objective is not
    finite changes the value network only, and the next batch is processed. Elsewhere
    (a loss of the line search, the scaling of the step) the model stops there, and
    what it proves is about the runs up to that point.
  \<^item> \<open>IndexError\<close>: a list index out of range.
  \<^item> \<open>ShapeError\<close>: tensors of sizes that do not fit.
  \<^item> \<open>ValueError\<close>: \<^verbatim>\<open>xrange\<close> with a step of zero.
\<close>

type_synonym vec = "real list"

datatype error = ZeroDivisionError | NonFinite | IndexError | ShapeError | ValueError

definition dot :: "vec \<Rightarrow> vec \<Rightarrow> real" where
  "dot u w = (\<Sum>(a, b) \<leftarrow> zip u w. a * b)"

definition smul :: "real \<Rightarrow> vec \<Rightarrow> vec" where
  "smul c u = map (\<lambda>a. c * a) u"

definition vadd :: "vec \<Rightarrow> vec \<Rightarrow> vec" where
  "vadd u w = map2 (\<lambda>a b. a + b) u w"

definition vsub :: "vec \<Rightarrow> vec \<Rightarrow> vec" where
  "vsub u w = map2 (\<lambda>a b. a - b) u w"

definition vneg :: "vec \<Rightarrow> vec" where
  "vneg u = map uminus u"

definition zeros_like :: "vec \<Rightarrow> vec" where
  "zeros_like u = map (\<lambda>_. 0) u"

section \<open>The float32 entries of a tensor\<close>

text \<open>
  A \<^verbatim>\<open>torch.FloatTensor\<close> holds IEEE single precision numbers: a significand of 24
  bits and an exponent from \<open>-126\<close> to \<open>127\<close>, with the spacing of the exponent \<open>-126\<close>
  below it. The result of an operation on its entries, and the entry made of a Python
  float, is the float nearest to the exact value, a tie going to the even significand;
  beyond the largest float it is \<^verbatim>\<open>inf\<close>. Python floats are doubles and are modelled
  exactly.
\<close>

definition round_half_even :: "real \<Rightarrow> int" where
  "round_half_even y =
     (let f = \<lfloor>y\<rfloor> in
      if y - of_int f < 1 / 2 then f
      else if 1 / 2 < y - of_int f then f + 1
      else if even f then f else f + 1)"

definition float32 :: "real \<Rightarrow> error + real" where
  "float32 x =
     (if x = 0 then Inr 0
      else
        let e = max \<lfloor>log 2 \<bar>x\<bar>\<rfloor> (- 126);
            ulp = 2 powr (of_int e - 23);
            y = of_int (round_half_even (x / ulp)) * ulp
        in if (2 - 1 / 2 ^ 23) * 2 ^ 127 < \<bar>y\<bar> then Inl NonFinite else Inr y)"

text \<open>
  The tensor of the given values in the arithmetic \<open>fl\<close>, which is \<open>float32\<close> in the
  code and \<open>Inr\<close> in exact arithmetic: every entry is rounded.
\<close>

fun tensor_of :: "(real \<Rightarrow> error + real) \<Rightarrow> vec \<Rightarrow> error + vec" where
  "tensor_of fl [] = Inr []"
| "tensor_of fl (a # u) =
     (case fl a of
        Inl e \<Rightarrow> Inl e
      | Inr b \<Rightarrow> (case tensor_of fl u of Inl e \<Rightarrow> Inl e | Inr w \<Rightarrow> Inr (b # w)))"

section \<open>Discounted returns (\<^verbatim>\<open>learn\<close>, the loop after each rollout)\<close>

text \<open>
  \<^verbatim>\<open>
  for i in xrange(1, episode_len):
      trajectories[2][-i-1][0] += trajectories[2][-i][0] * self.reward_gamma
  \<close>
  \<^verbatim>\<open>trajectories[2]\<close> is the flat list of the rewards of every episode collected so
  far in this iteration, the current episode last; each entry is a one-element list, here
  a real. Python resolves an index \<open>i\<close> of a list of length \<open>n\<close> to \<open>i\<close> when
  \<open>0 \<le> i < n\<close>, to \<open>n + i\<close> when \<open>-n \<le> i < 0\<close>, and raises IndexError otherwise.
\<close>

definition resolve_index :: "nat \<Rightarrow> int \<Rightarrow> error + nat" where
  "resolve_index n i =
     (if 0 \<le> i \<and> i < int n then Inr (nat i)
      else if i < 0 \<and> - int n \<le> i then Inr (nat (int n + i))
      else Inl IndexError)"

definition discount_step :: "real \<Rightarrow> real list \<Rightarrow> nat \<Rightarrow> error + real list" where
  "discount_step reward_gamma rs i =
     (case resolve_index (length rs) (- int i - 1) of
        Inl e \<Rightarrow> Inl e
      | Inr dst \<Rightarrow>
          (case resolve_index (length rs) (- int i) of
             Inl e \<Rightarrow> Inl e
           | Inr src \<Rightarrow> Inr (rs[dst := rs ! dst + rs ! src * reward_gamma])))"

fun discount_loop :: "real \<Rightarrow> nat list \<Rightarrow> real list \<Rightarrow> error + real list" where
  "discount_loop reward_gamma [] rs = Inr rs"
| "discount_loop reward_gamma (i # is) rs =
     (case discount_step reward_gamma rs i of
        Inl e \<Rightarrow> Inl e
      | Inr rs' \<Rightarrow> discount_loop reward_gamma is rs')"

definition discount :: "real \<Rightarrow> nat \<Rightarrow> real list \<Rightarrow> error + real list" where
  "discount reward_gamma episode_len rs = discount_loop reward_gamma [1..<episode_len] rs"

text \<open>
  The returns of one episode as the specification words them: the return of a step is its
  reward plus \<open>gamma\<close> times the return of the following step, and \<open>0\<close> follows the
  last step.
\<close>

fun returns :: "real \<Rightarrow> real list \<Rightarrow> real list" where
  "returns g [] = []"
| "returns g (r # rs) = (r + g * (case returns g rs of [] \<Rightarrow> 0 | x # _ \<Rightarrow> x)) # returns g rs"

text \<open>
  One iteration of sampling appends the rewards of each episode to the flat list and runs
  the loop above with that episode's length. An episode is given here by the rewards the
  environment returned during its rollout, in order.
\<close>

fun collect_rewards :: "real \<Rightarrow> real list list \<Rightarrow> real list \<Rightarrow> error + real list" where
  "collect_rewards reward_gamma [] rs = Inr rs"
| "collect_rewards reward_gamma (ep # eps) rs =
     (case discount reward_gamma (length ep) (rs @ ep) of
        Inl e \<Rightarrow> Inl e
      | Inr rs' \<Rightarrow> collect_rewards reward_gamma eps rs')"

section \<open>The conjugate-gradient solver (\<^verbatim>\<open>cg\<close>)\<close>

text \<open>
  \<^verbatim>\<open>
  def cg(self, fvp, b):
      p = b.clone()
      r = b.clone()
      x = torch.zeros_like(b)
      rdotr = r.dot(r)
      for i in xrange(self.cg_iters):
          z = fvp(p)
          v = rdotr / p.dot(z)
          x += v * p
          r -= v * z
          newrdotr = r.dot(r)
          mu = newrdotr / rdotr
          p = r + mu * p
          rdotr = newrdotr
          if rdotr < self.cg_tol:
              break
      return x
  \<close>
  The local variables are the fields of \<open>cg_state\<close>; \<open>fvp_calls\<close> counts the
  applications of the operator. \<^verbatim>\<open>p.dot(z)\<close> raises for tensors of different sizes;
  after it every vector of the loop has the size of \<open>b\<close>. Both quotients are quotients of
  Python floats. A failure keeps the state it was raised in, so that the count of
  operator applications is known for every run.
\<close>

record cg_state =
  cg_p :: vec
  cg_r :: vec
  cg_x :: vec
  cg_rdotr :: real
  fvp_calls :: nat

definition cg_init :: "vec \<Rightarrow> cg_state" where
  "cg_init b = \<lparr>cg_p = b, cg_r = b, cg_x = zeros_like b, cg_rdotr = dot b b, fvp_calls = 0\<rparr>"

definition cg_body :: "(vec \<Rightarrow> vec) \<Rightarrow> cg_state \<Rightarrow> error option \<times> cg_state" where
  "cg_body fvp s =
     (let z = fvp (cg_p s);
          s1 = s\<lparr>fvp_calls := Suc (fvp_calls s)\<rparr>
      in if length z \<noteq> length (cg_p s) then (Some ShapeError, s1)
         else if dot (cg_p s) z = 0 then (Some ZeroDivisionError, s1)
         else
           let v = cg_rdotr s / dot (cg_p s) z;
               x = vadd (cg_x s) (smul v (cg_p s));
               r = vsub (cg_r s) (smul v z);
               newrdotr = dot r r;
               s2 = s1\<lparr>cg_x := x, cg_r := r\<rparr>
           in if cg_rdotr s = 0 then (Some ZeroDivisionError, s2)
              else
                let mu = newrdotr / cg_rdotr s;
                    p = vadd r (smul mu (cg_p s))
                in (None, s2\<lparr>cg_p := p, cg_rdotr := newrdotr\<rparr>))"

fun cg_loop :: "(vec \<Rightarrow> vec) \<Rightarrow> real \<Rightarrow> nat \<Rightarrow> cg_state \<Rightarrow> error option \<times> cg_state" where
  "cg_loop fvp cg_tol 0 s = (None, s)"
| "cg_loop fvp cg_tol (Suc n) s =
     (case cg_body fvp s of
        (Some e, s') \<Rightarrow> (Some e, s')
      | (None, s') \<Rightarrow> if cg_rdotr s' < cg_tol then (None, s') else cg_loop fvp cg_tol n s')"

definition cg_run :: "(vec \<Rightarrow> vec) \<Rightarrow> real \<Rightarrow> nat \<Rightarrow> vec \<Rightarrow> error option \<times> cg_state" where
  "cg_run fvp cg_tol cg_iters b = cg_loop fvp cg_tol cg_iters (cg_init b)"

definition cg :: "(vec \<Rightarrow> vec) \<Rightarrow> real \<Rightarrow> nat \<Rightarrow> vec \<Rightarrow> error + vec" where
  "cg fvp cg_tol cg_iters b =
     (case cg_run fvp cg_tol cg_iters b of
        (Some e, _) \<Rightarrow> Inl e
      | (None, s) \<Rightarrow> Inr (cg_x s))"

text \<open>
  The states after each completed pass of the loop body, without the tolerance test:
  \<open>cg_iterate fvp k s\<close> is the state after \<open>k\<close> passes from \<open>s\<close>, when none of them
  fails.
\<close>

fun cg_iterate :: "(vec \<Rightarrow> vec) \<Rightarrow> nat \<Rightarrow> cg_state \<Rightarrow> cg_state option" where
  "cg_iterate fvp 0 s = Some s"
| "cg_iterate fvp (Suc k) s =
     (case cg_body fvp s of
        (Some e, _) \<Rightarrow> None
      | (None, s') \<Rightarrow> cg_iterate fvp k s')"

text \<open>The operator of a matrix, given by its rows.\<close>

definition matvec :: "real list list \<Rightarrow> vec \<Rightarrow> vec" where
  "matvec A u = map (\<lambda>row. dot row u) A"

section \<open>The backtracking line search (\<^verbatim>\<open>line_search\<close>)\<close>

text \<open>
  \<^verbatim>\<open>x + stepfrac * fullstep\<close> adds two 1-D tensors: elementwise when the sizes are equal,
  with the one element repeated when one of them has a single element, and raising
  otherwise.
\<close>

definition broadcast :: "(real \<Rightarrow> real \<Rightarrow> real) \<Rightarrow> vec \<Rightarrow> vec \<Rightarrow> error + vec" where
  "broadcast f u w =
     (if length u = length w then Inr (map2 f u w)
      else if length u = 1 then Inr (map (f (hd u)) w)
      else if length w = 1 then Inr (map (\<lambda>a. f a (hd w)) u)
      else Inl ShapeError)"

text \<open>
  \<^verbatim>\<open>
  def line_search(self, f, x, fullstep, expected_improve_rate):
      fval = f(x)
      for i in xrange(self.ls_iters):
          stepfrac = 0.5 ** i
          xi = x + stepfrac * fullstep
          actual_improve = fval - f(xi)
          if actual_improve > 0:
              if actual_improve / (stepfrac * expected_improve_rate) > self.accept_ratio:
                  return True, xi
      return False, x
  \<close>
  The loss \<open>f\<close> is a callable: it may fail and it may have effects, so it takes and returns
  a state \<open>'h\<close>.

  \<^verbatim>\<open>learn\<close> passes an \<^verbatim>\<open>expected_improve_rate\<close> that is a numpy float, and numpy
  floats do not raise on a division by zero. A numpy float is a real number, where
  \<open>Num 0\<close> is the zero \<open>+0.0\<close>, or the negative zero, or one of \<^verbatim>\<open>inf\<close>, \<^verbatim>\<open>-inf\<close>
  and \<^verbatim>\<open>nan\<close>. The step fraction is positive, and the product with it has the sign
  of the rate. The quotient of a positive number by \<open>+0.0\<close> is \<^verbatim>\<open>inf\<close>, which is greater
  than every \<open>accept_ratio\<close>, and by \<open>-0.0\<close> it is \<^verbatim>\<open>-inf\<close>, which is greater than
  none; for a negative number it is the other way round, and \<open>0 / 0\<close> is \<^verbatim>\<open>nan\<close>, which
  is greater than nothing. A quotient by \<^verbatim>\<open>inf\<close> or \<^verbatim>\<open>-inf\<close> is a zero, and a
  quotient by \<^verbatim>\<open>nan\<close> is \<^verbatim>\<open>nan\<close>.
\<close>

datatype npfloat = Num real | NegZero | PosInf | NegInf | NaN

fun np_scale :: "real \<Rightarrow> npfloat \<Rightarrow> npfloat" where
  "np_scale c (Num r) = Num (c * r)"
| "np_scale c NegZero = NegZero"
| "np_scale c PosInf = PosInf"
| "np_scale c NegInf = NegInf"
| "np_scale c NaN = NaN"

text \<open>\<^verbatim>\<open>a / d > bound\<close> for a Python float \<open>a\<close> and a numpy float \<open>d\<close>.\<close>

fun quotient_exceeds :: "real \<Rightarrow> npfloat \<Rightarrow> real \<Rightarrow> bool" where
  "quotient_exceeds a (Num d) bound = (if d = 0 then 0 < a else a / d > bound)"
| "quotient_exceeds a NegZero bound = (a < 0)"
| "quotient_exceeds a PosInf bound = (0 > bound)"
| "quotient_exceeds a NegInf bound = (0 > bound)"
| "quotient_exceeds a NaN bound = False"

fun line_search_loop ::
  "(vec \<Rightarrow> 'h \<Rightarrow> (error + real) \<times> 'h) \<Rightarrow> real \<Rightarrow> real \<Rightarrow> vec \<Rightarrow> vec \<Rightarrow> npfloat \<Rightarrow> nat list \<Rightarrow> 'h
     \<Rightarrow> (error + bool \<times> vec) \<times> 'h" where
  "line_search_loop f accept_ratio fval x fullstep expected_improve_rate [] h = (Inr (False, x), h)"
| "line_search_loop f accept_ratio fval x fullstep expected_improve_rate (i # is) h =
     (let stepfrac = (1 / 2) ^ i in
      case broadcast (\<lambda>a b. a + b) x (smul stepfrac fullstep) of
        Inl e \<Rightarrow> (Inl e, h)
      | Inr xi \<Rightarrow>
          (case f xi h of
             (Inl e, h') \<Rightarrow> (Inl e, h')
           | (Inr fxi, h') \<Rightarrow>
               (let actual_improve = fval - fxi in
                if actual_improve > 0 then
                  if quotient_exceeds actual_improve (np_scale stepfrac expected_improve_rate)
                       accept_ratio
                    then (Inr (True, xi), h')
                  else line_search_loop f accept_ratio fval x fullstep expected_improve_rate is h'
                else line_search_loop f accept_ratio fval x fullstep expected_improve_rate is h')))"

definition line_search ::
  "(vec \<Rightarrow> 'h \<Rightarrow> (error + real) \<times> 'h) \<Rightarrow> real \<Rightarrow> nat \<Rightarrow> vec \<Rightarrow> vec \<Rightarrow> npfloat \<Rightarrow> 'h
     \<Rightarrow> (error + bool \<times> vec) \<times> 'h" where
  "line_search f accept_ratio ls_iters x fullstep expected_improve_rate h =
     (case f x h of
        (Inl e, h') \<Rightarrow> (Inl e, h')
      | (Inr fval, h') \<Rightarrow>
          line_search_loop f accept_ratio fval x fullstep expected_improve_rate [0..<ls_iters] h')"


text \<open>
  The acceptance test as the specification words it: the candidate of step fraction
  \<open>0.5\<^sup>i\<close>, which exists when the sizes of \<open>x\<close> and of the full step fit, and whether it
  is accepted: the actual improvement is positive, and its quotient by
  \<open>0.5\<^sup>i \<sqdot> expected_improve_rate\<close> exceeds \<open>accept_ratio\<close>.
\<close>

definition ls_candidate :: "vec \<Rightarrow> vec \<Rightarrow> nat \<Rightarrow> error + vec" where
  "ls_candidate x fullstep i = broadcast (\<lambda>a b. a + b) x (smul ((1 / 2) ^ i) fullstep)"


section \<open>The configuration, the capabilities and the state of the agent\<close>

text \<open>The keyword arguments of the constructor, with their defaults.\<close>

record config =
  accept_ratio :: real
  reward_gamma :: real
  cg_iters :: nat
  cg_tol :: real
  cg_damping :: real
  max_kl :: real
  ls_iters :: nat

definition default_config :: config where
  "default_config =
     \<lparr>accept_ratio = 9 / 10, reward_gamma = 9 / 10, cg_iters = 10, cg_tol = 1 / 10 ^ 10,
      cg_damping = 1 / 10 ^ 3, max_kl = 1 / 10 ^ 2, ls_iters = 10\<rparr>"

text \<open>
  The networks, the optimizer of the value network and automatic differentiation are
  supplied to the agent. The model takes them as functions:
  \<^item> \<open>policy_forward \<theta> s\<close> is \<^verbatim>\<open>self._policy(state)\<close> when the parameters of the policy
    are \<open>\<theta>\<close>: a variable of type \<open>'p\<close> that carries its history, and \<open>data\<close> gives its
    values, the probabilities of the actions;
  \<^item> \<open>history p \<theta>\<close> is the value that the graph of the variable \<open>p\<close> computes from the
    parameters \<open>\<theta>\<close> of the policy, and \<open>recorded_at p\<close> is the parameter vector that
    \<open>p\<close> was computed from, which its graph keeps (\<^verbatim>\<open>vector_to_parameters\<close> gives the
    model new tensors and leaves those of the graph as they are);
  \<^item> \<open>flatten_grad F \<theta>\<close> is \<^verbatim>\<open>flatten_grad(self._policy.parameters(), loss)\<close> for a
    loss whose graph computes \<open>F\<close> from the parameters and was recorded at \<open>\<theta>\<close>;
  \<^item> \<open>kl_hvp \<theta> b_s v\<close> is the result of the two \<^verbatim>\<open>flatten_grad\<close> calls of \<^verbatim>\<open>fvp\<close>, a
    vector of the size of \<open>\<theta>\<close>;
  \<^item> \<open>value_forward w s\<close> is the baseline of the value network in state \<open>w\<close>, and
    \<open>value_step w b_s b_r\<close> its state after the loss on the tensor of the returns
    \<open>b_r\<close>, \<^verbatim>\<open>backward\<close> and one \<^verbatim>\<open>optimizer.step()\<close>.
\<close>

record ('s, 'p, 'v) capabilities =
  policy_forward :: "vec \<Rightarrow> 's \<Rightarrow> 'p"
  data :: "'p \<Rightarrow> vec"
  history :: "'p \<Rightarrow> vec \<Rightarrow> vec"
  recorded_at :: "'p \<Rightarrow> vec"
  flatten_grad :: "(vec \<Rightarrow> real) \<Rightarrow> vec \<Rightarrow> vec"
  kl_hvp :: "vec \<Rightarrow> 's list \<Rightarrow> vec \<Rightarrow> vec"
  value_forward :: "'v \<Rightarrow> 's \<Rightarrow> real"
  value_step :: "'v \<Rightarrow> 's list \<Rightarrow> vec \<Rightarrow> 'v"

text \<open>
  Policy model objects live in a store: the object at address \<open>m\<close> has the flattened
  parameter vector \<open>h ! m\<close>. \<^verbatim>\<open>copy.deepcopy\<close> allocates a new object with the same
  parameters. \<^verbatim>\<open>vector_to_parameters(vec, parameters)\<close> replaces the parameters of one
  object by the leading entries of \<open>vec\<close> and fails when \<open>vec\<close> is too short.
  \<^verbatim>\<open>self._policy\<close> is the address \<open>policy\<close> of the agent.
\<close>

type_synonym heap = "vec list"

definition deepcopy :: "nat \<Rightarrow> heap \<Rightarrow> nat \<times> heap" where
  "deepcopy m h = (length h, h @ [h ! m])"

definition parameters_to_vector :: "nat \<Rightarrow> heap \<Rightarrow> vec" where
  "parameters_to_vector m h = h ! m"

definition vector_to_parameters :: "vec \<Rightarrow> nat \<Rightarrow> heap \<Rightarrow> error + heap" where
  "vector_to_parameters v m h =
     (if length v < length (h ! m) then Inl ShapeError
      else Inr (h[m := take (length (h ! m)) v]))"

text \<open>The store \<open>h'\<close> holds the objects of \<open>h\<close> unchanged, and possibly further ones.\<close>

definition extends :: "heap \<Rightarrow> heap \<Rightarrow> bool" where
  "extends h h' = (take (length h) h' = h)"

record 'v agent =
  policy :: nat
  models :: heap
  val :: 'v
  logged :: "string list"

section \<open>Tensor operations of the batch update\<close>

text \<open>
  \<^verbatim>\<open>probs.gather(1, b_a)\<close> picks from each row the entry of that row's action.
\<close>

definition gather :: "vec list \<Rightarrow> nat list \<Rightarrow> error + vec" where
  "gather rows as =
     (if length rows \<noteq> length as then Inl ShapeError
      else if list_ex (\<lambda>(p, a). length p \<le> a) (zip rows as) then Inl IndexError
      else Inr (map2 (\<lambda>p a. p ! a) rows as))"

text \<open>
  \<^verbatim>\<open>mean()\<close> of no element and \<^verbatim>\<open>std()\<close> (the unbiased one, with \<open>n - 1\<close>) of fewer than
  two elements are \<^verbatim>\<open>nan\<close>. Both are accumulated in doubles and returned as Python
  floats, from the entries as they are.
\<close>

definition tensor_mean :: "vec \<Rightarrow> error + real" where
  "tensor_mean u = (if u = [] then Inl NonFinite else Inr (sum_list u / real (length u)))"

definition tensor_std :: "vec \<Rightarrow> error + real" where
  "tensor_std u =
     (if length u < 2 then Inl NonFinite
      else
        let m = sum_list u / real (length u)
        in Inr (sqrt (sum_list (map (\<lambda>a. (a - m)\<^sup>2) u) / real (length u - 1))))"

text \<open>Elementwise division of tensors: a zero divisor gives \<^verbatim>\<open>inf\<close> or \<^verbatim>\<open>nan\<close>.\<close>

definition tensor_div :: "vec \<Rightarrow> vec \<Rightarrow> error + vec" where
  "tensor_div u w =
     (if list_ex (\<lambda>b. b = 0) w then Inl NonFinite else broadcast (\<lambda>a b. a / b) u w)"

text \<open>
  \<^verbatim>\<open>advantage = (advantage - advantage.mean()) / advantage.std()\<close>

  The advantage is a float32 tensor. A tensor minus a Python float, and a tensor divided
  by one, first make the Python float a float32 and then compute entry by entry, each
  result rounded. There is no test of the standard deviation: a tensor divided by zero
  has the entries \<^verbatim>\<open>inf\<close> or \<^verbatim>\<open>nan\<close>. \<open>fl\<close> is the arithmetic of the tensor.
\<close>

definition standardize_with :: "(real \<Rightarrow> error + real) \<Rightarrow> vec \<Rightarrow> error + vec" where
  "standardize_with fl advantage =
     (case tensor_mean advantage of
        Inl e \<Rightarrow> Inl e
      | Inr m \<Rightarrow>
          (case fl m of
             Inl e \<Rightarrow> Inl e
           | Inr m' \<Rightarrow>
               (case tensor_of fl (map (\<lambda>a. a - m') advantage) of
                  Inl e \<Rightarrow> Inl e
                | Inr centered \<Rightarrow>
                    (case tensor_std advantage of
                       Inl e \<Rightarrow> Inl e
                     | Inr sd \<Rightarrow>
                         (case fl sd of
                            Inl e \<Rightarrow> Inl e
                          | Inr sd' \<Rightarrow>
                              if sd' = 0 then Inl NonFinite
                              else tensor_of fl (map (\<lambda>c. c / sd') centered))))))"

text \<open>The standardization in exact arithmetic.\<close>

definition standardize :: "vec \<Rightarrow> error + vec" where
  "standardize advantage = standardize_with Inr advantage"

text \<open>
  \<^verbatim>\<open>
  b_r = torch.FloatTensor(b_r)
  baseline = self._value.forward(Variable(b_s))
  advantage = b_r - baseline.data
  advantage = (advantage - advantage.mean()) / advantage.std()
  \<close>
  The returns are Python floats; the baseline is a tensor already.
\<close>

definition advantage_of :: "(real \<Rightarrow> error + real) \<Rightarrow> vec \<Rightarrow> vec \<Rightarrow> error + vec" where
  "advantage_of fl b_r baseline =
     (case tensor_of fl b_r of
        Inl e \<Rightarrow> Inl e
      | Inr b_r' \<Rightarrow>
          (case tensor_of fl (vsub b_r' baseline) of
             Inl e \<Rightarrow> Inl e
           | Inr advantage \<Rightarrow> standardize_with fl advantage))"

text \<open>
  \<^verbatim>\<open>
  new_probs = b_p.gather(1, Variable(b_a))  # use old probs as start point to search
  old_probs = new_probs.detach()  # detach the old probs
  obj = (Variable(advantage) * (new_probs / old_probs)).mean()
  \<close>
  \<open>b_p\<close> holds the variables that \<^verbatim>\<open>act\<close> returned while the trajectories were sampled.
  \<^verbatim>\<open>detach\<close> gives the same values without the history. The result is the values of
  \<open>new_probs\<close>, of \<open>old_probs\<close> and of \<open>obj\<close>.
\<close>

definition detach :: "vec \<Rightarrow> vec" where
  "detach u = u"

definition weighted_mean :: "vec \<Rightarrow> vec \<Rightarrow> vec \<Rightarrow> error + real" where
  "weighted_mean advantage num den =
     (case tensor_div num den of
        Inl e \<Rightarrow> Inl e
      | Inr ratio \<Rightarrow>
          (case broadcast (\<lambda>a b. a * b) advantage ratio of
             Inl e \<Rightarrow> Inl e
           | Inr weighted \<Rightarrow> tensor_mean weighted))"

definition batch_objective ::
  "('s, 'p, 'v) capabilities \<Rightarrow> 'p list \<Rightarrow> nat list \<Rightarrow> vec \<Rightarrow> error + vec \<times> vec \<times> real" where
  "batch_objective caps b_p b_a advantage =
     (case gather (map (data caps) b_p) b_a of
        Inl e \<Rightarrow> Inl e
      | Inr new_probs \<Rightarrow>
          (let old_probs = detach new_probs in
           case weighted_mean advantage new_probs old_probs of
             Inl e \<Rightarrow> Inl e
           | Inr obj \<Rightarrow> Inr (new_probs, old_probs, obj)))"

text \<open>
  \<^verbatim>\<open>pg = self.flatten_grad(self._policy.parameters(), -obj).data\<close>

  \<open>obj\<close> depends on the parameters of the policy through the histories of the variables
  in \<open>b_p\<close>; the advantage and the detached \<open>old_probs\<close> are constants. \<open>objective_at\<close> is
  the value that the graph of \<open>obj\<close> computes from the parameters \<open>\<theta>\<close> (and \<open>0\<close> where
  it computes none), and the gradient is taken of its negation. The variables of a batch
  are those of one iteration, recorded at the same parameters, here those of the first.
\<close>

definition objective_at ::
  "('s, 'p, 'v) capabilities \<Rightarrow> 'p list \<Rightarrow> nat list \<Rightarrow> vec \<Rightarrow> vec \<Rightarrow> vec \<Rightarrow> real" where
  "objective_at caps b_p b_a advantage old_probs \<theta> =
     (case gather (map (\<lambda>p. history caps p \<theta>) b_p) b_a of
        Inl e \<Rightarrow> 0
      | Inr new_probs \<Rightarrow>
          (case weighted_mean advantage new_probs old_probs of
             Inl e \<Rightarrow> 0
           | Inr obj \<Rightarrow> obj))"

definition policy_gradient ::
  "('s, 'p, 'v) capabilities \<Rightarrow> 'p list \<Rightarrow> nat list \<Rightarrow> vec \<Rightarrow> vec \<Rightarrow> vec" where
  "policy_gradient caps b_p b_a advantage old_probs =
     flatten_grad caps (\<lambda>\<theta>. - objective_at caps b_p b_a advantage old_probs \<theta>)
       (recorded_at caps (hd b_p))"

text \<open>
  A vector \<open>g\<close> is the flattened gradient of \<open>F\<close> at \<open>\<theta>\<close>: its entries are the partial
  derivatives of \<open>F\<close> by the entries of \<open>\<theta>\<close>.
\<close>

definition is_gradient :: "(vec \<Rightarrow> real) \<Rightarrow> vec \<Rightarrow> vec \<Rightarrow> bool" where
  "is_gradient F \<theta> g =
     (length g = length \<theta> \<and>
      (\<forall>i < length \<theta>. ((\<lambda>t. F (\<theta>[i := t])) has_real_derivative g ! i) (at (\<theta> ! i))))"

section \<open>The surrogate loss (\<^verbatim>\<open>get_loss\<close>) and the Fisher-vector product (\<^verbatim>\<open>fvp\<close>)\<close>

text \<open>
  \<^verbatim>\<open>
  def get_loss(self, theta, b_s, b_a, advantage):
      prob_old = self._policy(b_s).gather(1, b_a).data
      new_model = copy.deepcopy(self._policy)
      vector_to_parameters(theta, new_model.parameters())
      prob_new = new_model(b_s).gather(1, b_a).data
      return -(prob_new / prob_old * advantage).mean()
  \<close>
  \<^verbatim>\<open>learn\<close> binds \<open>b_s\<close>, \<open>b_a\<close> and \<open>advantage\<close> and leaves \<open>theta\<close> to the line search;
  \<open>pol\<close> is the address of \<^verbatim>\<open>self._policy\<close>. The elementwise product of the ratio and
  the advantage is the same in either order.
\<close>

definition get_loss ::
  "('s, 'p, 'v) capabilities \<Rightarrow> nat \<Rightarrow> 's list \<Rightarrow> nat list \<Rightarrow> vec \<Rightarrow> vec \<Rightarrow> heap
     \<Rightarrow> (error + real) \<times> heap" where
  "get_loss caps pol b_s b_a advantage theta h =
     (case gather (map (\<lambda>s. data caps (policy_forward caps (h ! pol) s)) b_s) b_a of
        Inl e \<Rightarrow> (Inl e, h)
      | Inr prob_old \<Rightarrow>
          (case deepcopy pol h of
             (new_model, h1) \<Rightarrow>
               (case vector_to_parameters theta new_model h1 of
                  Inl e \<Rightarrow> (Inl e, h1)
                | Inr h2 \<Rightarrow>
                    (case gather
                        (map (\<lambda>s. data caps (policy_forward caps (h2 ! new_model) s)) b_s) b_a of
                       Inl e \<Rightarrow> (Inl e, h2)
                     | Inr prob_new \<Rightarrow>
                         (case weighted_mean advantage prob_new prob_old of
                            Inl e \<Rightarrow> (Inl e, h2)
                          | Inr m \<Rightarrow> (Inr (- m), h2))))))"

text \<open>
  \<^verbatim>\<open>
  def fvp(self, v, b_s):
      grads = self.flatten_grad(self._policy.parameters(), self._policy.get_kl(b_s), create_graph=True)
      grads = self.flatten_grad(self._policy.parameters(), (grads * Variable(v)).sum())
      return grads.data + v * self.cg_damping
  \<close>
\<close>

definition fvp :: "config \<Rightarrow> ('s, 'p, 'v) capabilities \<Rightarrow> vec \<Rightarrow> 's list \<Rightarrow> vec \<Rightarrow> vec" where
  "fvp cfg caps theta b_s v = vadd (kl_hvp caps theta b_s v) (smul (cg_damping cfg) v)"

section \<open>The update of the policy in one batch (\<^verbatim>\<open>learn\<close>, the batch loop)\<close>

text \<open>
  \<^verbatim>\<open>numpy.allclose(a, b)\<close> with its default tolerances: every entry satisfies
  \<open>\<bar>a - b\<bar> \<le> atol + rtol \<sqdot> \<bar>b\<bar>\<close> with \<open>atol = 10\<^sup>-\<^sup>8\<close> and \<open>rtol = 10\<^sup>-\<^sup>5\<close>.
\<close>

definition allclose :: "vec \<Rightarrow> real \<Rightarrow> bool" where
  "allclose u b = list_all (\<lambda>a. \<bar>a - b\<bar> \<le> 1 / 10 ^ 8 + 1 / 10 ^ 5 * \<bar>b\<bar>) u"

text \<open>
  \<^verbatim>\<open>
  fvp = partial(self.fvp, b_s=Variable(b_s))
  stepdir = self.cg(fvp, -pg)
  shs = 0.5 * stepdir.dot(fvp(stepdir))
  lm = numpy.sqrt(shs / self.max_kl)
  fullstep = Variable(stepdir / lm)
  expected_improve_rate = -pg.dot(stepdir) / lm
  loss_fun = partial(self.get_loss, b_s=Variable(b_s), b_a=Variable(b_a), advantage=advantage)
  old_theta = parameters_to_vector(self._policy.parameters())
  success, new_theta = self.line_search(loss_fun, old_theta, fullstep, expected_improve_rate)
  \<close>
  \<open>shs / self.max_kl\<close> is a quotient of Python floats; \<^verbatim>\<open>numpy.sqrt\<close> of a negative
  number is \<^verbatim>\<open>nan\<close>, and the two divisions by \<open>lm\<close> are numpy and tensor divisions:
  with a square root that is \<^verbatim>\<open>nan\<close> or zero the full step is no vector of numbers,
  and the model stops. A dot product that is zero is the float \<open>+0.0\<close> (a sum of floats
  that cancels is \<open>+0.0\<close>), so that \<^verbatim>\<open>-pg.dot(stepdir) / lm\<close> is then the negative
  zero.
\<close>

definition policy_search ::
  "config \<Rightarrow> ('s, 'p, 'v) capabilities \<Rightarrow> vec \<Rightarrow> 's list \<Rightarrow> nat list \<Rightarrow> vec \<Rightarrow> 'v agent
     \<Rightarrow> (error + bool \<times> vec) \<times> heap" where
  "policy_search cfg caps pg b_s b_a advantage a =
     (let fvp' = fvp cfg caps (models a ! policy a) b_s in
      case cg fvp' (cg_tol cfg) (cg_iters cfg) (vneg pg) of
        Inl e \<Rightarrow> (Inl e, models a)
      | Inr stepdir \<Rightarrow>
          if length (fvp' stepdir) \<noteq> length stepdir then (Inl ShapeError, models a)
          else
            let shs = 1 / 2 * dot stepdir (fvp' stepdir) in
            if max_kl cfg = 0 then (Inl ZeroDivisionError, models a)
            else if shs / max_kl cfg < 0 then (Inl NonFinite, models a)
            else
              let lm = sqrt (shs / max_kl cfg) in
              if lm = 0 then (Inl NonFinite, models a)
              else
                let fullstep = map (\<lambda>c. c / lm) stepdir;
                    expected_improve_rate =
                      (if dot pg stepdir = 0 then NegZero else Num (- dot pg stepdir / lm));
                    loss_fun = get_loss caps (policy a) b_s b_a advantage;
                    old_theta = parameters_to_vector (policy a) (models a)
                in line_search loss_fun (accept_ratio cfg) (ls_iters cfg) old_theta fullstep
                     expected_improve_rate (models a))"

text \<open>
  \<^verbatim>\<open>
  if numpy.allclose(pg, 0):
      logger.warn("got zero gradient. not updating")
  else:
      ...
      success, new_theta = self.line_search(loss_fun, old_theta, fullstep, expected_improve_rate)
      if success:
          vector_to_parameters(new_theta, self._policy.parameters())
  \<close>
\<close>

definition update_policy ::
  "config \<Rightarrow> ('s, 'p, 'v) capabilities \<Rightarrow> vec \<Rightarrow> 's list \<Rightarrow> nat list \<Rightarrow> vec \<Rightarrow> 'v agent
     \<Rightarrow> error option \<times> 'v agent" where
  "update_policy cfg caps pg b_s b_a advantage a =
     (if allclose pg 0
      then (None, a\<lparr>logged := logged a @ [''got zero gradient. not updating'']\<rparr>)
      else
        case policy_search cfg caps pg b_s b_a advantage a of
          (Inl e, h) \<Rightarrow> (Some e, a\<lparr>models := h\<rparr>)
        | (Inr (success, new_theta), h) \<Rightarrow>
            if success then
              (case vector_to_parameters new_theta (policy a) h of
                 Inl e \<Rightarrow> (Some e, a\<lparr>models := h\<rparr>)
               | Inr h' \<Rightarrow> (None, a\<lparr>models := h'\<rparr>))
            else (None, a\<lparr>models := h\<rparr>))"

text \<open>
  The trajectories of one iteration are four parallel lists: states, actions, rewards
  (returns, after the discounting) and the variables of the action probabilities.
  \<^verbatim>\<open>
  for index in xrange(0, len(trajectories[0]), batch_size):
      b_s, b_a, b_r, b_p = (trajectories[i][index:index+batch_size] for i in xrange(4))
      ...
      baseline = self._value.forward(Variable(b_s))
      advantage = b_r - baseline.data
      advantage = (advantage - advantage.mean()) / advantage.std()
      loss = self.loss(baseline, Variable(b_r))
      self.optimizer.zero_grad()
      loss.backward()
      self.optimizer.step()
      new_probs = ...
      pg = self.flatten_grad(self._policy.parameters(), -obj).data
      if numpy.allclose(pg, 0): ...
  \<close>
\<close>

record ('s, 'p) trajectories =
  traj_s :: "'s list"
  traj_a :: "nat list"
  traj_r :: "real list"
  traj_p :: "'p list"

definition slice :: "'a list \<Rightarrow> nat \<Rightarrow> nat \<Rightarrow> 'a list" where
  "slice xs lo hi = take (hi - lo) (drop lo xs)"

text \<open>
  The first part of the body of the batch loop, up to the gradient \<open>pg\<close>: it yields the
  inputs of the update of the policy, and the agent after the step of the value network.
  The step of the value network does not depend on the advantage and is made in any
  case. When the advantage is not finite, the code still gathers the probabilities,
  which may raise; the result is then \<open>NonFinite\<close>, as it is when the objective is not
  finite.
\<close>

definition batch_gradient ::
  "('s, 'p, 'v) capabilities \<Rightarrow> ('s, 'p) trajectories \<Rightarrow> nat \<Rightarrow> nat \<Rightarrow> 'v agent
     \<Rightarrow> (error + 's list \<times> nat list \<times> vec \<times> vec) \<times> 'v agent" where
  "batch_gradient caps trajectories batch_size index a =
     (let b_s = slice (traj_s trajectories) index (index + batch_size);
          b_a = slice (traj_a trajectories) index (index + batch_size);
          b_r = slice (traj_r trajectories) index (index + batch_size);
          b_p = slice (traj_p trajectories) index (index + batch_size);
          baseline = map (value_forward caps (val a)) b_s;
          a1 = a\<lparr>val := value_step caps (val a) b_s b_r\<rparr>
      in case advantage_of float32 b_r baseline of
           Inl e \<Rightarrow>
             (case gather (map (data caps) b_p) b_a of
                Inl e' \<Rightarrow> (Inl e', a1)
              | Inr new_probs \<Rightarrow> (Inl e, a1))
         | Inr advantage \<Rightarrow>
             (case batch_objective caps b_p b_a advantage of
                Inl e \<Rightarrow> (Inl e, a1)
              | Inr (new_probs, old_probs, obj) \<Rightarrow>
                  (let pg = policy_gradient caps b_p b_a advantage old_probs
                   in (Inr (b_s, b_a, advantage, pg), a1))))"

text \<open>
  The body of the batch loop. With an advantage or an objective that is \<^verbatim>\<open>nan\<close>, the
  gradient is \<^verbatim>\<open>nan\<close>: \<^verbatim>\<open>numpy.allclose\<close> is false, the conjugate gradients, the
  step and the losses of the line search are \<^verbatim>\<open>nan\<close>, and no candidate is accepted,
  a comparison with \<^verbatim>\<open>nan\<close> being false. Nothing is logged, and nothing is raised
  when the sizes are those of a batch with a finite gradient; the parameters of the
  policy are not written, and the copies of the model that the line search made are
  dropped. The loop goes on with the next batch.
\<close>

definition learn_batch ::
  "config \<Rightarrow> ('s, 'p, 'v) capabilities \<Rightarrow> ('s, 'p) trajectories \<Rightarrow> nat \<Rightarrow> nat \<Rightarrow> 'v agent
     \<Rightarrow> error option \<times> 'v agent" where
  "learn_batch cfg caps trajectories batch_size index a =
     (case batch_gradient caps trajectories batch_size index a of
        (Inl e, a1) \<Rightarrow> if e = NonFinite then (None, a1) else (Some e, a1)
      | (Inr (b_s, b_a, advantage, pg), a1) \<Rightarrow> update_policy cfg caps pg b_s b_a advantage a1)"

fun batch_loop ::
  "config \<Rightarrow> ('s, 'p, 'v) capabilities \<Rightarrow> ('s, 'p) trajectories \<Rightarrow> nat \<Rightarrow> nat list \<Rightarrow> 'v agent
     \<Rightarrow> error option \<times> 'v agent" where
  "batch_loop cfg caps trajectories batch_size [] a = (None, a)"
| "batch_loop cfg caps trajectories batch_size (index # indices) a =
     (case learn_batch cfg caps trajectories batch_size index a of
        (Some e, a') \<Rightarrow> (Some e, a')
      | (None, a') \<Rightarrow> batch_loop cfg caps trajectories batch_size indices a')"

text \<open>\<^verbatim>\<open>xrange(0, n, step)\<close>: the multiples of \<open>step\<close> below \<open>n\<close>; a step of zero raises.\<close>

definition xrange_step :: "nat \<Rightarrow> nat \<Rightarrow> error + nat list" where
  "xrange_step n step =
     (if step = 0 then Inl ValueError
      else Inr (map (\<lambda>k. k * step) [0..<(n + step - 1) div step]))"

definition train_batches ::
  "config \<Rightarrow> ('s, 'p, 'v) capabilities \<Rightarrow> ('s, 'p) trajectories \<Rightarrow> nat \<Rightarrow> 'v agent
     \<Rightarrow> error option \<times> 'v agent" where
  "train_batches cfg caps trajectories batch_size a =
     (case xrange_step (length (traj_s trajectories)) batch_size of
        Inl e \<Rightarrow> (Some e, a)
      | Inr indices \<Rightarrow> batch_loop cfg caps trajectories batch_size indices a)"

section \<open>Sampling the trajectories, and the loop of \<^verbatim>\<open>learn\<close>\<close>

text \<open>
  The environment and the random choice of \<^verbatim>\<open>multinomial\<close> are outside the agent. They
  act on a state \<open>'e\<close> of the outside world: \<open>env_reset\<close> and \<open>env_step\<close> are
  \<^verbatim>\<open>env.reset()\<close> and \<^verbatim>\<open>env.step(a)\<close> (the \<^verbatim>\<open>info\<close> is not used), and
  \<open>multinomial e probs\<close> is the action that \<^verbatim>\<open>prob.multinomial(1)\<close> draws.
  \<^verbatim>\<open>
  def act(self, state, step=None, noise=None):
      state = Variable(torch.unsqueeze(torch.FloatTensor(state), 0), requires_grad=True)
      prob = self._policy(state)
      action = prob.multinomial(1).data.numpy()[0, 0]
      return action, prob
  \<close>
  \<open>\<theta>\<close> is the parameter vector of \<^verbatim>\<open>self._policy\<close>.
\<close>

record ('e, 's) environment =
  env_reset :: "'e \<Rightarrow> 's \<times> 'e"
  env_step :: "'e \<Rightarrow> nat \<Rightarrow> ('s \<times> real \<times> bool) \<times> 'e"
  multinomial :: "'e \<Rightarrow> vec \<Rightarrow> nat \<times> 'e"

definition act ::
  "('s, 'p, 'v) capabilities \<Rightarrow> ('e, 's) environment \<Rightarrow> vec \<Rightarrow> 's \<Rightarrow> 'e \<Rightarrow> (nat \<times> 'p) \<times> 'e" where
  "act caps env \<theta> state e =
     (let prob = policy_forward caps \<theta> state in
      case multinomial env e (data caps prob) of
        (action, e') \<Rightarrow> ((action, prob), e'))"

text \<open>
  \<^verbatim>\<open>
  s = env.reset()
  episode_len = 0
  done = False
  while not done:
      episode_len += 1
      a, p = self.act(s)
      s_, r, done, info = env.step(a)
      trajectories[0].append(s)
      trajectories[1].append([a])
      trajectories[2].append([r])
      trajectories[3].append(p)
      s = s_
  for i in xrange(1, episode_len):
      trajectories[2][-i-1][0] += trajectories[2][-i][0] * self.reward_gamma
  \<close>
  The \<^verbatim>\<open>while\<close> loop runs as long as the environment does not end the episode: it is a
  partial function, and \<open>None\<close> is the rollout that never ends.
\<close>

definition append_step ::
  "('s, 'p) trajectories \<Rightarrow> 's \<Rightarrow> nat \<Rightarrow> real \<Rightarrow> 'p \<Rightarrow> ('s, 'p) trajectories" where
  "append_step trajectories s a r p =
     \<lparr>traj_s = traj_s trajectories @ [s], traj_a = traj_a trajectories @ [a],
      traj_r = traj_r trajectories @ [r], traj_p = traj_p trajectories @ [p]\<rparr>"

partial_function (option) rollout ::
  "('s, 'p, 'v) capabilities \<Rightarrow> ('e, 's) environment \<Rightarrow> vec \<Rightarrow> 's \<Rightarrow> nat
     \<Rightarrow> ('s, 'p) trajectories \<Rightarrow> 'e \<Rightarrow> (nat \<times> ('s, 'p) trajectories \<times> 'e) option" where
  "rollout caps env \<theta> s episode_len trajectories e =
     (case act caps env \<theta> s e of
        ((a, p), e1) \<Rightarrow>
          (case env_step env e1 a of
             ((s', r, done), e2) \<Rightarrow>
               if done then Some (Suc episode_len, append_step trajectories s a r p, e2)
               else rollout caps env \<theta> s' (Suc episode_len) (append_step trajectories s a r p) e2))"

definition sample_episode ::
  "config \<Rightarrow> ('s, 'p, 'v) capabilities \<Rightarrow> ('e, 's) environment \<Rightarrow> vec \<Rightarrow> ('s, 'p) trajectories \<Rightarrow> 'e
     \<Rightarrow> (error + ('s, 'p) trajectories \<times> 'e) option" where
  "sample_episode cfg caps env \<theta> trajectories e =
     (case env_reset env e of
        (s, e0) \<Rightarrow>
          (case rollout caps env \<theta> s 0 trajectories e0 of
             None \<Rightarrow> None
           | Some (episode_len, trajectories', e') \<Rightarrow>
               Some (case discount (reward_gamma cfg) episode_len (traj_r trajectories') of
                       Inl err \<Rightarrow> Inl err
                     | Inr rs \<Rightarrow> Inr (trajectories'\<lparr>traj_r := rs\<rparr>, e'))))"

text \<open>\<^verbatim>\<open>for _ in xrange(sample_episodes)\<close>, from the trajectories collected so far.\<close>

fun sample_trajectories ::
  "config \<Rightarrow> ('s, 'p, 'v) capabilities \<Rightarrow> ('e, 's) environment \<Rightarrow> vec \<Rightarrow> nat
     \<Rightarrow> ('s, 'p) trajectories \<Rightarrow> 'e \<Rightarrow> (error + ('s, 'p) trajectories \<times> 'e) option" where
  "sample_trajectories cfg caps env \<theta> 0 trajectories e = Some (Inr (trajectories, e))"
| "sample_trajectories cfg caps env \<theta> (Suc n) trajectories e =
     (case sample_episode cfg caps env \<theta> trajectories e of
        None \<Rightarrow> None
      | Some (Inl err) \<Rightarrow> Some (Inl err)
      | Some (Inr (trajectories', e')) \<Rightarrow> sample_trajectories cfg caps env \<theta> n trajectories' e')"

text \<open>
  \<^verbatim>\<open>
  def learn(self, env, max_iter, batch_size, sample_episodes):
      for i_iter in xrange(max_iter):
          trajectories = [[], [], [], []]  # s, a, r, p
          for _ in xrange(sample_episodes): ...
          for index in xrange(0, len(trajectories[0]), batch_size): ...
  \<close>
\<close>

definition empty_trajectories :: "('s, 'p) trajectories" where
  "empty_trajectories = \<lparr>traj_s = [], traj_a = [], traj_r = [], traj_p = []\<rparr>"

definition learn_iteration ::
  "config \<Rightarrow> ('s, 'p, 'v) capabilities \<Rightarrow> ('e, 's) environment \<Rightarrow> nat \<Rightarrow> nat \<Rightarrow> 'v agent \<Rightarrow> 'e
     \<Rightarrow> (error option \<times> 'v agent \<times> 'e) option" where
  "learn_iteration cfg caps env batch_size sample_episodes a e =
     (case sample_trajectories cfg caps env (models a ! policy a) sample_episodes
             empty_trajectories e of
        None \<Rightarrow> None
      | Some (Inl err) \<Rightarrow> Some (Some err, a, e)
      | Some (Inr (trajectories, e')) \<Rightarrow>
          (case train_batches cfg caps trajectories batch_size a of
             (r, a') \<Rightarrow> Some (r, a', e')))"

fun learn ::
  "config \<Rightarrow> ('s, 'p, 'v) capabilities \<Rightarrow> ('e, 's) environment \<Rightarrow> nat \<Rightarrow> nat \<Rightarrow> nat \<Rightarrow> 'v agent \<Rightarrow> 'e
     \<Rightarrow> (error option \<times> 'v agent \<times> 'e) option" where
  "learn cfg caps env 0 batch_size sample_episodes a e = Some (None, a, e)"
| "learn cfg caps env (Suc max_iter) batch_size sample_episodes a e =
     (case learn_iteration cfg caps env batch_size sample_episodes a e of
        None \<Rightarrow> None
      | Some (Some err, a', e') \<Rightarrow> Some (Some err, a', e')
      | Some (None, a', e') \<Rightarrow> learn cfg caps env max_iter batch_size sample_episodes a' e')"

text \<open>The trajectories \<open>t\<close> with further steps appended to the four lists.\<close>

definition extend_traj ::
  "('s, 'p) trajectories \<Rightarrow> 's list \<Rightarrow> nat list \<Rightarrow> real list \<Rightarrow> 'p list \<Rightarrow> ('s, 'p) trajectories" where
  "extend_traj t ss as rs ps =
     \<lparr>traj_s = traj_s t @ ss, traj_a = traj_a t @ as, traj_r = traj_r t @ rs, traj_p = traj_p t @ ps\<rparr>"

section \<open>A small instance\<close>

text \<open>
  An agent to run the definitions on: one state, two actions, and a policy with one
  parameter \<open>t\<close> that takes the first action with probability \<open>t\<close> and the second with
  probability \<open>1 - t\<close>. The vector of the probabilities tells the parameter it was
  computed from. The probability of an action is linear in \<open>t\<close>, and so is every
  objective: its derivative is the difference of its values at \<open>t + 1\<close> and at \<open>t\<close>. The
  Fisher information is \<open>1 / (t (1 - t))\<close>. The value network predicts \<open>0\<close> and
  its step changes nothing. In the environment every episode has three steps, with
  the rewards \<open>- 1\<close>, \<open>- 0.9\<close> and \<open>1\<close>, and the actions drawn are the second, the
  first and the first. The trajectories are those of two episodes sampled while the
  parameter was \<open>1 / 2\<close>, two batches of three steps.
\<close>

definition toy_caps :: "(unit, vec, unit) capabilities" where
  "toy_caps =
     \<lparr>policy_forward = (\<lambda>\<theta> s. [\<theta> ! 0, 1 - \<theta> ! 0]),
      data = (\<lambda>p. p),
      history = (\<lambda>p \<theta>. [\<theta> ! 0, 1 - \<theta> ! 0]),
      recorded_at = (\<lambda>p. [p ! 0]),
      flatten_grad = (\<lambda>F \<theta>. [F [\<theta> ! 0 + 1] - F [\<theta> ! 0]]),
      kl_hvp = (\<lambda>\<theta> b_s v. map (\<lambda>c. c / (\<theta> ! 0 * (1 - \<theta> ! 0))) v),
      value_forward = (\<lambda>w s. 0),
      value_step = (\<lambda>w b_s b_r. w)\<rparr>"

definition toy_cfg :: config where
  "toy_cfg = default_config\<lparr>cg_damping := 0, max_kl := 1 / 18\<rparr>"

definition toy_traj :: "(unit, vec) trajectories" where
  "toy_traj =
     \<lparr>traj_s = [(), (), (), (), (), ()],
      traj_a = [1, 0, 0, 1, 0, 0],
      traj_r = [- 1, 0, 1, - 1, 0, 1],
      traj_p = [[1 / 2, 1 / 2], [1 / 2, 1 / 2], [1 / 2, 1 / 2],
                [1 / 2, 1 / 2], [1 / 2, 1 / 2], [1 / 2, 1 / 2]]\<rparr>"

definition toy_agent :: "unit agent" where
  "toy_agent = \<lparr>policy = 0, models = [[1 / 2]], val = (), logged = []\<rparr>"

definition toy_env :: "(nat, unit) environment" where
  "toy_env =
     \<lparr>env_reset = (\<lambda>e. ((), 0)),
      env_step = (\<lambda>e a. (((), [- 1, - (9 / 10), 1] ! e, e = 2), Suc e)),
      multinomial = (\<lambda>e p. (if e = 0 then 1 else 0, e))\<rparr>"

section \<open>Properties of the discounted returns\<close>

lemma discount_loop_append:
  "discount_loop g (xs @ ys) rs =
     (case discount_loop g xs rs of Inl e \<Rightarrow> Inl e | Inr rs' \<Rightarrow> discount_loop g ys rs')"
  by (induction xs arbitrary: rs) (auto split: sum.splits)

lemma returns_length [simp]: "length (returns g rs) = length rs"
  by (induction rs) auto

lemma returns_drop:
  "m < length ep \<Longrightarrow> returns g (drop m ep) =
     (ep ! m + g * (case returns g (drop (Suc m) ep) of [] \<Rightarrow> 0 | x # _ \<Rightarrow> x))
       # returns g (drop (Suc m) ep)"
  by (simp add: Cons_nth_drop_Suc [symmetric])

lemma returns_nth:
  "k < length ep \<Longrightarrow>
   returns g ep ! k = ep ! k + g * (if Suc k < length ep then returns g ep ! Suc k else 0)"
proof (induction ep arbitrary: k)
  case Nil
  then show ?case by simp
next
  case (Cons r ep)
  show ?case
  proof (cases k)
    case 0
    then show ?thesis by (cases ep) simp_all
  next
    case (Suc j)
    with Cons show ?thesis by simp
  qed
qed

text \<open>
  The state of the flat list before the loop handles \<open>i = length ep - Suc m\<close>: the entries
  from \<open>Suc m\<close> on hold returns already, the earlier ones of the episode are still raw.
\<close>

lemma discount_step_inv:
  assumes "Suc m < length ep"
  shows "discount_step g (prev @ take (Suc m) ep @ returns g (drop (Suc m) ep)) (length ep - Suc m)
     = Inr (prev @ take m ep @ returns g (drop m ep))"
proof -
  let ?A = "prev @ take (Suc m) ep @ returns g (drop (Suc m) ep)"
  have len: "length ?A = length prev + length ep" using assms by simp
  have dst: "resolve_index (length ?A) (- int (length ep - Suc m) - 1) = Inr (length prev + m)"
    using assms unfolding len resolve_index_def by (auto simp: nat_eq_iff)
  have src: "resolve_index (length ?A) (- int (length ep - Suc m)) = Inr (length prev + Suc m)"
    using assms unfolding len resolve_index_def by (auto simp: nat_eq_iff)
  have rd: "?A ! (length prev + m) = ep ! m"
    using assms by (simp add: nth_append)
  obtain y ys where ys: "returns g (drop (Suc m) ep) = y # ys"
    using assms by (cases "returns g (drop (Suc m) ep)") (auto dest: arg_cong [where f = length])
  have rs: "?A ! (length prev + Suc m) = y"
    using assms ys by (simp add: nth_append min_def)
  have rdm: "returns g (drop m ep) = (ep ! m + g * y) # y # ys"
    using assms ys returns_drop [of m ep g] by simp
  have upd: "?A[length prev + m := ep ! m + y * g] = prev @ take m ep @ returns g (drop m ep)"
    using assms unfolding rdm ys
    by (simp add: list_update_append take_Suc_conv_app_nth mult.commute)
  show ?thesis
    unfolding discount_step_def dst src using rd rs upd by simp
qed

lemma discount_loop_inv:
  "k < length ep \<Longrightarrow>
   discount_loop g [1..<Suc k] (prev @ ep) =
     Inr (prev @ take (length ep - Suc k) ep @ returns g (drop (length ep - Suc k) ep))"
proof (induction k)
  case 0
  then obtain x xs where "ep = xs @ [x]" by (cases ep rule: rev_cases) auto
  then show ?case by simp
next
  case (Suc k)
  let ?m = "length ep - Suc (Suc k)"
  have m: "Suc ?m < length ep" "length ep - Suc k = Suc ?m" "length ep - Suc ?m = Suc k"
    using Suc.prems by auto
  have "[1..<Suc (Suc k)] = [1..<Suc k] @ [Suc k]" by simp
  then show ?case
    using Suc discount_step_inv [OF m(1), of g prev] m
    by (simp add: discount_loop_append del: upt_Suc)
qed

lemma discount_episode:
  "discount g (length ep) (prev @ ep) = Inr (prev @ returns g ep)"
proof (cases ep)
  case Nil
  then show ?thesis by (simp add: discount_def)
next
  case (Cons a as)
  then have "length ep - 1 < length ep" by simp
  from discount_loop_inv [OF this, of g prev] Cons show ?thesis by (simp add: discount_def)
qed

lemma collect_rewards_concat:
  "collect_rewards g eps rs = Inr (rs @ concat (map (returns g) eps))"
  by (induction eps arbitrary: rs) (simp_all add: discount_episode)

text \<open>
  Claim C5. After the backward loop over one episode (appended to whatever the flat list
  held before), every entry of the episode holds its reward plus \<open>reward_gamma\<close> times
  the entry after it, and nothing is added to the last entry. For the rewards
  \<open>[1, 1, 1]\<close> and \<open>reward_gamma = 0.9\<close> the list becomes \<open>[2.71, 1.9, 1]\<close>.
\<close>

theorem discount_recursion:
  "(\<exists>out. discount g (length ep) (prev @ ep) = Inr (prev @ out) \<and> length out = length ep \<and>
      (\<forall>k < length ep. out ! k = ep ! k + g * (if Suc k < length ep then out ! Suc k else 0)))
   \<and> discount (9 / 10) 3 [1, 1, 1] = Inr [271 / 100, 19 / 10, 1]"
proof
  show "\<exists>out. discount g (length ep) (prev @ ep) = Inr (prev @ out) \<and> length out = length ep \<and>
      (\<forall>k < length ep. out ! k = ep ! k + g * (if Suc k < length ep then out ! Suc k else 0))"
    using discount_episode [of g ep prev] returns_nth [of _ ep g]
    by (intro exI [of _ "returns g ep"]) simp
  have "discount (9 / 10) (length [1, 1, 1 :: real]) ([] @ [1, 1, 1])
      = Inr ([] @ returns (9 / 10) [1, 1, 1])"
    by (rule discount_episode)
  then show "discount (9 / 10) 3 [1, 1, 1] = Inr [271 / 100, 19 / 10, 1]"
    by (simp add: numeral_3_eq_3)
qed

theorem discount_recursion_witness:
  "\<exists>out. discount (1 / 2) 2 [5, 1, 2] = Inr [5, out ! 0, out ! 1] \<and>
      out ! 0 = 1 + 1 / 2 * out ! 1 \<and> out ! 1 = 2"
proof -
  from discount_recursion [of "1 / 2" "[1, 2]" "[5]"]
  obtain out where o: "discount (1 / 2) (length [1, 2 :: real]) ([5] @ [1, 2]) = Inr ([5] @ out)"
      "length out = length [1, 2 :: real]"
      "\<forall>k < length [1, 2 :: real].
         out ! k = [1, 2] ! k + 1 / 2 * (if Suc k < length [1, 2 :: real] then out ! Suc k else 0)"
    by blast
  from o(3) [rule_format, of 0] o(3) [rule_format, of 1]
  have "out ! 0 = 1 + 1 / 2 * out ! 1" "out ! 1 = 2"
    by simp_all
  moreover from o(2) have "out = [out ! 0, out ! 1]"
    by (cases out; cases "tl out") auto
  ultimately show ?thesis using o(1) by (intro exI [of _ out]) (simp add: numeral_2_eq_2)
qed

section \<open>Properties of the conjugate-gradient solver\<close>

lemma dot_Nil [simp]: "dot [] w = 0" "dot u [] = 0"
  by (simp_all add: dot_def)

lemma dot_Cons [simp]: "dot (a # u) (b # w) = a * b + dot u w"
  by (simp add: dot_def)

lemma cg_body_calls: "fvp_calls (snd (cg_body A s)) = Suc (fvp_calls s)"
  by (simp add: cg_body_def Let_def)

lemma cg_loop_spec:
  "cg_loop A tol n s = (res, s') \<Longrightarrow>
   \<exists>k\<le>n. fvp_calls s' = fvp_calls s + k \<and> (0 < n \<longrightarrow> 0 < k) \<and>
     (\<forall>j. 0 < j \<and> j < k \<longrightarrow> (\<exists>sj. cg_iterate A j s = Some sj \<and> tol \<le> cg_rdotr sj)) \<and>
     (res = None \<longrightarrow> cg_iterate A k s = Some s' \<and> (k < n \<longrightarrow> cg_rdotr s' < tol)) \<and>
     (\<forall>e. res = Some e \<longrightarrow>
        (\<exists>sp. cg_iterate A (k - 1) s = Some sp \<and> cg_body A sp = (Some e, s')))"
proof (induction n arbitrary: s)
  case 0
  then show ?case by simp
next
  case (Suc n)
  obtain r1 s1 where b: "cg_body A s = (r1, s1)" by (cases "cg_body A s")
  have c1: "fvp_calls s1 = Suc (fvp_calls s)" using cg_body_calls [of A s] b by simp
  show ?case
  proof (cases r1)
    case (Some e)
    with Suc.prems b c1 have "res = Some e" "s' = s1" by auto
    with c1 b Some show ?thesis by (intro exI [of _ 1]) simp
  next
    case None
    show ?thesis
    proof (cases "cg_rdotr s1 < tol")
      case True
      with Suc.prems b None have "res = None" "s' = s1" by auto
      with c1 b None True show ?thesis by (intro exI [of _ 1]) simp
    next
      case False
      with Suc.prems b None have "cg_loop A tol n s1 = (res, s')" by simp
      from Suc.IH [OF this] obtain k where k: "k \<le> n" "fvp_calls s' = fvp_calls s1 + k"
        "0 < n \<longrightarrow> 0 < k"
        "\<forall>j. 0 < j \<and> j < k \<longrightarrow> (\<exists>sj. cg_iterate A j s1 = Some sj \<and> tol \<le> cg_rdotr sj)"
        "res = None \<longrightarrow> cg_iterate A k s1 = Some s' \<and> (k < n \<longrightarrow> cg_rdotr s' < tol)"
        "\<forall>e. res = Some e \<longrightarrow>
           (\<exists>sp. cg_iterate A (k - 1) s1 = Some sp \<and> cg_body A sp = (Some e, s'))"
        by (elim exE conjE) (rule that)
      have earlier: "\<exists>sj. cg_iterate A j s = Some sj \<and> tol \<le> cg_rdotr sj"
        if "0 < j" "j < Suc k" for j
      proof (cases j)
        case 0
        with that show ?thesis by simp
      next
        case (Suc i)
        have unroll: "cg_iterate A j s = cg_iterate A i s1"
          using b None Suc by simp
        show ?thesis
        proof (cases "i = 0")
          case True
          with \<open>\<not> cg_rdotr s1 < tol\<close> show ?thesis unfolding unroll by simp
        next
          case False
          with Suc that k(4) obtain sj where "cg_iterate A i s1 = Some sj" "tol \<le> cg_rdotr sj"
            by auto
          then show ?thesis unfolding unroll by simp
        qed
      qed
      have failing: "\<exists>sp. cg_iterate A (Suc k - 1) s = Some sp \<and> cg_body A sp = (Some e, s')"
        if "res = Some e" for e
      proof -
        from that k(6) obtain sp where sp: "cg_iterate A (k - 1) s1 = Some sp"
          "cg_body A sp = (Some e, s')" by auto
        have "0 < k"
        proof (rule ccontr)
          assume "\<not> 0 < k"
          with k(3) have "n = 0" by simp
          with \<open>cg_loop A tol n s1 = (res, s')\<close> that show False by simp
        qed
        then have "cg_iterate A (Suc k - 1) s = cg_iterate A (k - 1) s1"
          using b None by (cases k) simp_all
        with sp show ?thesis by simp
      qed
      from k(1,2,5) c1 b None earlier failing show ?thesis
        by (intro exI [of _ "Suc k"]) (simp del: cg_iterate.simps, simp)
    qed
  qed
qed

text \<open>
  Claim C8, as the code has it. For every operator, target vector, tolerance and cap,
  \<^verbatim>\<open>cg\<close> applies the operator at most \<open>cg_iters\<close> times, whether it returns or
  raises, and at least once when \<open>cg_iters\<close> is positive: the tolerance is tested after a
  pass of the loop body, never before the first. After every pass but the last one made,
  the residual dot product was not below \<open>cg_tol\<close>. When \<^verbatim>\<open>cg\<close> returns after \<open>k\<close>
  applications, its state is the one \<open>k\<close> passes of the loop body produce, and it has left
  the loop before the cap only with a residual dot product strictly below \<open>cg_tol\<close>: the
  loop ends exactly after the first pass with such a residual, or at the cap. When it
  raises, it does so in the last pass made. Nothing is said about the residual norm from
  one pass to the next.
\<close>

theorem cg_termination:
  "fvp_calls (snd (cg_run A tol n b)) \<le> n \<and>
   (0 < n \<longrightarrow> 0 < fvp_calls (snd (cg_run A tol n b))) \<and>
   (\<forall>j. 0 < j \<and> j < fvp_calls (snd (cg_run A tol n b)) \<longrightarrow>
      (\<exists>sj. cg_iterate A j (cg_init b) = Some sj \<and> tol \<le> cg_rdotr sj)) \<and>
   (fst (cg_run A tol n b) = None \<longrightarrow>
      cg_iterate A (fvp_calls (snd (cg_run A tol n b))) (cg_init b) = Some (snd (cg_run A tol n b)) \<and>
      (fvp_calls (snd (cg_run A tol n b)) < n \<longrightarrow> cg_rdotr (snd (cg_run A tol n b)) < tol)) \<and>
   (\<forall>e. fst (cg_run A tol n b) = Some e \<longrightarrow>
      (\<exists>sp. cg_iterate A (fvp_calls (snd (cg_run A tol n b)) - 1) (cg_init b) = Some sp \<and>
            cg_body A sp = (Some e, snd (cg_run A tol n b))))"
proof -
  obtain res s' where r: "cg_run A tol n b = (res, s')" by (cases "cg_run A tol n b")
  then have "cg_loop A tol n (cg_init b) = (res, s')" by (simp add: cg_run_def)
  from cg_loop_spec [OF this] obtain k where k: "k \<le> n" "fvp_calls s' = fvp_calls (cg_init b) + k"
    "0 < n \<longrightarrow> 0 < k"
    "\<forall>j. 0 < j \<and> j < k \<longrightarrow> (\<exists>sj. cg_iterate A j (cg_init b) = Some sj \<and> tol \<le> cg_rdotr sj)"
    "res = None \<longrightarrow> cg_iterate A k (cg_init b) = Some s' \<and> (k < n \<longrightarrow> cg_rdotr s' < tol)"
    "\<forall>e. res = Some e \<longrightarrow>
       (\<exists>sp. cg_iterate A (k - 1) (cg_init b) = Some sp \<and> cg_body A sp = (Some e, s'))"
    by (elim exE conjE) (rule that)
  have calls: "fvp_calls s' = k" using k(2) by (simp add: cg_init_def)
  from k(1,3,4,5,6) show ?thesis unfolding r fst_conv snd_conv calls by simp
qed

lemmas cg_eval = cg_def cg_run_def cg_init_def cg_body_def matvec_def Let_def vadd_def vsub_def
  smul_def zeros_like_def

theorem cg_termination_witness:
  "fvp_calls (snd (cg_run (matvec [[3, 2], [2, 6]]) (1 / 10 ^ 10) 10 [2, - 8])) = 2 \<and>
   cg_rdotr (snd (cg_run (matvec [[3, 2], [2, 6]]) (1 / 10 ^ 10) 10 [2, - 8])) < 1 / 10 ^ 10 \<and>
   (\<exists>sj. cg_iterate (matvec [[3, 2], [2, 6]]) 1 (cg_init [2, - 8]) = Some sj \<and>
      1 / 10 ^ 10 \<le> cg_rdotr sj) \<and>
   0 < fvp_calls (snd (cg_run (matvec [[3, 2], [2, 6]]) 100 10 [2, - 8]))"
proof -
  have run: "cg_run (matvec [[3, 2], [2, 6]]) (1 / 10 ^ 10) 10 [2, - 8] =
    (None, \<lparr>cg_p = [0, 0], cg_r = [0, 0], cg_x = [2, - 2], cg_rdotr = 0, fvp_calls = 2\<rparr>)"
    by (simp add: cg_eval eval_nat_numeral)
  note t = cg_termination [of "matvec [[3, 2], [2, 6]]" "1 / 10 ^ 10" 10 "[2, - 8]", unfolded run]
  have "\<exists>sj. cg_iterate (matvec [[3, 2], [2, 6]]) 1 (cg_init [2, - 8]) = Some sj \<and>
      1 / 10 ^ 10 \<le> cg_rdotr sj"
    using t [THEN conjunct2, THEN conjunct2, THEN conjunct1, rule_format, of 1] by simp
  moreover have "0 < fvp_calls (snd (cg_run (matvec [[3, 2], [2, 6]]) 100 10 [2, - 8]))"
    using cg_termination [of "matvec [[3, 2], [2, 6]]" 100 10 "[2, - 8]",
      THEN conjunct2, THEN conjunct1] by simp
  ultimately show ?thesis unfolding run by simp
qed

text \<open>
  The claim C8 as stated adds that for a symmetric positive-definite operator the residual
  norm does not increase from one pass to the next. Conjugate gradients make the error
  smaller in the norm of the operator, not the residual: for the diagonal operator with
  entries \<open>1\<close> and \<open>100\<close> (its quadratic form is \<open>x\<^sup>2 + 100 y\<^sup>2\<close>) and the target
  \<open>[10, 1]\<close>, the residual dot product is \<open>101\<close> at the start and \<open>989901 / 400\<close> after
  the first pass, which is not below the default tolerance either, so the loop goes on.
\<close>

theorem cg_residual_counterexample:
  "(\<forall>x y. dot [x, y] (matvec [[1, 0], [0, 100]] [x, y]) = x\<^sup>2 + 100 * y\<^sup>2) \<and>
   cg_rdotr (cg_init [10, 1]) = 101 \<and>
   cg_iterate (matvec [[1, 0], [0, 100]]) 1 (cg_init [10, 1]) =
     Some \<lparr>cg_p = [9999 / 40, - (9999 / 400)], cg_r = [99 / 20, - (99 / 2)],
           cg_x = [101 / 20, 101 / 200], cg_rdotr = 989901 / 400, fvp_calls = 1\<rparr> \<and>
   \<not> (989901 / 400 \<le> (101 :: real)) \<and>
   \<not> (989901 / 400 < (1 / 10 ^ 10 :: real))"
  by (simp add: cg_eval power2_eq_square)

text \<open>
  Claim C1. For the operator of the matrix \<open>[[3, 2], [2, 6]]\<close>, the target \<open>[2, -8]\<close>, at
  most \<open>10\<close> iterations and a (positive) tolerance of at most \<open>10\<^sup>-\<^sup>6\<close>, \<^verbatim>\<open>cg\<close>
  returns \<open>[2, -2]\<close>, after two applications of the operator. In exact arithmetic the
  result is the solution itself, hence within \<open>10\<^sup>-\<^sup>6\<close> of it.
\<close>

theorem cg_example:
  "0 < tol \<Longrightarrow> tol \<le> 1 / 10 ^ 6 \<Longrightarrow>
   cg (matvec [[3, 2], [2, 6]]) tol 10 [2, - 8] = Inr [2, - 2] \<and>
   fvp_calls (snd (cg_run (matvec [[3, 2], [2, 6]]) tol 10 [2, - 8])) = 2"
  by (simp add: cg_eval eval_nat_numeral)

theorem cg_example_witness:
  "cg (matvec [[3, 2], [2, 6]]) (1 / 10 ^ 10) 10 [2, - 8] = Inr [2, - 2] \<and>
   fvp_calls (snd (cg_run (matvec [[3, 2], [2, 6]]) (1 / 10 ^ 10) 10 [2, - 8])) = 2"
  using cg_example [of "1 / 10 ^ 10"] by simp

section \<open>Properties of the line search\<close>

lemma broadcast_same: "length u = length w \<Longrightarrow> broadcast f u w = Inr (map2 f u w)"
  by (simp add: broadcast_def)


lemma ls_candidate_misfit:
  "ls_candidate x fullstep i = Inl e \<Longrightarrow> ls_candidate x fullstep j = Inl e"
  by (auto simp: ls_candidate_def broadcast_def smul_def split: if_splits)





section \<open>The live policy model and the line search\<close>

lemma extends_refl [simp]: "extends h h"
  by (simp add: extends_def)

lemma extends_length: "extends h h' \<Longrightarrow> length h \<le> length h'"
proof -
  assume "extends h h'"
  then have "length (take (length h) h') = length h" by (simp add: extends_def)
  then show ?thesis by simp
qed

lemma extends_trans: "extends h h' \<Longrightarrow> extends h' h'' \<Longrightarrow> extends h h''"
proof -
  assume a: "extends h h'" and b: "extends h' h''"
  have "take (length h) h'' = take (length h) (take (length h') h'')"
    using extends_length [OF a] by (simp add: min_def)
  also have "\<dots> = h" using a b by (simp add: extends_def)
  finally show ?thesis by (simp add: extends_def)
qed

lemma extends_nth: "extends h h' \<Longrightarrow> m < length h \<Longrightarrow> h' ! m = h ! m"
proof -
  assume a: "extends h h'" and m: "m < length h"
  have "take (length h) h' ! m = h' ! m" using m by simp
  with a show ?thesis by (simp add: extends_def)
qed

lemma get_loss_extends: "extends h (snd (get_loss caps pol b_s b_a advantage theta h))"
  by (simp add: get_loss_def deepcopy_def vector_to_parameters_def extends_def
      split: sum.splits)

lemma line_search_loop_extends:
  assumes f: "\<And>u g. extends g (snd (f u g))"
  shows "extends h (snd (line_search_loop f ar fval x fullstep eir is h))"
proof (induction "is" arbitrary: h)
  case Nil
  then show ?case by simp
next
  case (Cons i "is")
  show ?case
  proof (cases "broadcast (\<lambda>a b. a + b) x (smul ((1 / 2) ^ i) fullstep)")
    case (Inl e)
    then show ?thesis by simp
  next
    case (Inr xi)
    obtain r h' where fx: "f xi h = (r, h')" by (cases "f xi h")
    have hh': "extends h h'" using f [of h xi] fx by simp
    have rest: "extends h (snd (line_search_loop f ar fval x fullstep eir is h'))"
      using extends_trans [OF hh' Cons.IH [of h']] .
    show ?thesis
      using Inr fx hh' rest by (cases r) (simp_all add: Let_def)
  qed
qed

lemma line_search_extends:
  assumes f: "\<And>u g. extends g (snd (f u g))"
  shows "extends h (snd (line_search f ar n x fullstep eir h))"
proof -
  obtain r h' where fx: "f x h = (r, h')" by (cases "f x h")
  have hh': "extends h h'" using f [of h x] fx by simp
  show ?thesis
  proof (cases r)
    case (Inl e)
    with fx hh' show ?thesis by (simp add: line_search_def)
  next
    case (Inr fval)
    with fx extends_trans [OF hh' line_search_loop_extends [of f h' ar fval x fullstep eir "[0..<n]"]] f
    show ?thesis by (simp add: line_search_def)
  qed
qed

lemma broadcast_length: "broadcast f u w = Inr y \<Longrightarrow> w \<noteq> [] \<Longrightarrow> length u \<le> length y"
  by (cases w) (auto simp: broadcast_def split: if_splits)

lemma line_search_loop_result:
  "fst (line_search_loop f ar fval x fullstep eir is h) = Inr (success, y) \<Longrightarrow>
   (if success then fullstep \<noteq> [] \<longrightarrow> length x \<le> length y else y = x)"
proof (induction "is" arbitrary: h)
  case Nil
  then show ?case by simp
next
  case (Cons i "is")
  show ?case
  proof (cases "broadcast (\<lambda>a b. a + b) x (smul ((1 / 2) ^ i) fullstep)")
    case (Inl e)
    with Cons.prems show ?thesis by simp
  next
    case (Inr xi)
    obtain r h' where fx: "f xi h = (r, h')" by (cases "f xi h")
    show ?thesis
    proof (cases r)
      case (Inl e)
      with Cons.prems Inr fx show ?thesis by simp
    next
      case fxi: (Inr v)
      from Cons.prems Inr fx fxi Cons.IH [of h'] broadcast_length [OF Inr]
      show ?thesis by (auto simp: Let_def smul_def split: if_splits)
    qed
  qed
qed

lemma line_search_result:
  "fst (line_search f ar n x fullstep eir h) = Inr (success, y) \<Longrightarrow>
   (if success then fullstep \<noteq> [] \<longrightarrow> length x \<le> length y else y = x)"
proof -
  assume a: "fst (line_search f ar n x fullstep eir h) = Inr (success, y)"
  obtain r h' where fx: "f x h = (r, h')" by (cases "f x h")
  show ?thesis
  proof (cases r)
    case (Inl e)
    with a fx show ?thesis by (simp add: line_search_def)
  next
    case (Inr fval)
    with a fx have "fst (line_search_loop f ar fval x fullstep eir [0..<n] h') = Inr (success, y)"
      by (simp add: line_search_def)
    then show ?thesis by (rule line_search_loop_result)
  qed
qed

lemma policy_search_extends:
  "extends (models a) (snd (policy_search cfg caps pg b_s b_a advantage a))"
  using line_search_extends [of "get_loss caps (policy a) b_s b_a advantage", OF get_loss_extends]
  by (simp add: policy_search_def Let_def split: sum.splits)

lemma cg_body_length:
  assumes "cg_body A s = (None, s')" and "length (cg_x s) = length (cg_p s)"
    and "length (cg_r s) = length (cg_p s)"
  shows "length (cg_x s') = length (cg_x s) \<and> length (cg_p s') = length (cg_p s)
    \<and> length (cg_r s') = length (cg_r s)"
  using assms
  by (auto simp: cg_body_def Let_def vadd_def vsub_def smul_def split: if_splits)

lemma cg_loop_length:
  "cg_loop A tol n s = (None, s') \<Longrightarrow> length (cg_x s) = length (cg_p s) \<Longrightarrow>
   length (cg_r s) = length (cg_p s) \<Longrightarrow> length (cg_x s') = length (cg_x s)"
proof (induction n arbitrary: s)
  case 0
  then show ?case by simp
next
  case (Suc n)
  obtain r1 s1 where b: "cg_body A s = (r1, s1)" by (cases "cg_body A s")
  show ?case
  proof (cases r1)
    case (Some e)
    with Suc.prems b show ?thesis by simp
  next
    case None
    from cg_body_length [OF b [unfolded None] Suc.prems(2,3)]
    have l: "length (cg_x s1) = length (cg_x s)" "length (cg_p s1) = length (cg_p s)"
      "length (cg_r s1) = length (cg_r s)" by simp_all
    show ?thesis
    proof (cases "cg_rdotr s1 < tol")
      case True
      with Suc.prems b None l show ?thesis by simp
    next
      case False
      with Suc.prems b None have "cg_loop A tol n s1 = (None, s')" by simp
      from Suc.IH [OF this] l Suc.prems show ?thesis by simp
    qed
  qed
qed

lemma cg_length: "cg A tol n b = Inr x \<Longrightarrow> length x = length b"
proof -
  assume a: "cg A tol n b = Inr x"
  obtain r s where run: "cg_loop A tol n (cg_init b) = (r, s)"
    by (cases "cg_loop A tol n (cg_init b)")
  with a have "r = None" "x = cg_x s"
    by (auto simp: cg_def cg_run_def split: option.splits)
  with cg_loop_length [of A tol n "cg_init b" s] run show ?thesis
    by (simp add: cg_init_def zeros_like_def)
qed

lemma allclose_Nil [simp]: "allclose [] b"
  by (simp add: allclose_def)

lemma policy_search_result:
  "fst (policy_search cfg caps pg b_s b_a advantage a) = Inr (success, y) \<Longrightarrow>
   (if success then pg \<noteq> [] \<longrightarrow> length (models a ! policy a) \<le> length y
    else y = models a ! policy a)"
proof -
  assume a: "fst (policy_search cfg caps pg b_s b_a advantage a) = Inr (success, y)"
  let ?A = "fvp cfg caps (models a ! policy a) b_s"
  from a obtain stepdir where sd: "cg ?A (cg_tol cfg) (cg_iters cfg) (vneg pg) = Inr stepdir"
    by (cases "cg ?A (cg_tol cfg) (cg_iters cfg) (vneg pg)") (simp_all add: policy_search_def)
  from cg_length [OF sd] have len: "length stepdir = length pg" by (simp add: vneg_def)
  let ?lm = "sqrt (1 / 2 * dot stepdir (?A stepdir) / max_kl cfg)"
  from a sd have "fst (line_search (get_loss caps (policy a) b_s b_a advantage) (accept_ratio cfg)
      (ls_iters cfg) (models a ! policy a) (map (\<lambda>c. c / ?lm) stepdir)
      (if dot pg stepdir = 0 then NegZero else Num (- dot pg stepdir / ?lm))
      (models a)) = Inr (success, y)"
    by (simp add: policy_search_def Let_def parameters_to_vector_def split: if_splits)
  from line_search_result [OF this] len show ?thesis by auto
qed


lemma update_policy_frame:
  assumes live: "policy a < length (models a)"
  shows "policy (snd (update_policy cfg caps pg b_s b_a advantage a)) = policy a"
    and "\<not> allclose pg 0 \<Longrightarrow> fst (policy_search cfg caps pg b_s b_a advantage a) = Inr (True, new_theta)
      \<Longrightarrow> update_policy cfg caps pg b_s b_a advantage a =
            (None, a\<lparr>models := (snd (policy_search cfg caps pg b_s b_a advantage a))
                        [policy a := take (length (models a ! policy a)) new_theta]\<rparr>)"
    and "allclose pg 0 \<or> (\<forall>y. fst (policy_search cfg caps pg b_s b_a advantage a) \<noteq> Inr (True, y))
      \<Longrightarrow> models (snd (update_policy cfg caps pg b_s b_a advantage a)) ! policy a = models a ! policy a"
proof -
  obtain r h where ps: "policy_search cfg caps pg b_s b_a advantage a = (r, h)"
    by (cases "policy_search cfg caps pg b_s b_a advantage a")
  have ext: "extends (models a) h"
    using policy_search_extends [of a cfg caps pg b_s b_a advantage] ps by simp
  have nth: "h ! policy a = models a ! policy a"
    using extends_nth [OF ext live] .
  show "policy (snd (update_policy cfg caps pg b_s b_a advantage a)) = policy a"
    by (simp add: update_policy_def ps split: sum.splits prod.splits)
  show "update_policy cfg caps pg b_s b_a advantage a =
            (None, a\<lparr>models := (snd (policy_search cfg caps pg b_s b_a advantage a))
                        [policy a := take (length (models a ! policy a)) new_theta]\<rparr>)"
    if nz: "\<not> allclose pg 0"
      and ok: "fst (policy_search cfg caps pg b_s b_a advantage a) = Inr (True, new_theta)"
  proof -
    from nz have "pg \<noteq> []" by auto
    with policy_search_result [OF ok] have "length (models a ! policy a) \<le> length new_theta"
      by simp
    with nz ok ps nth show ?thesis
      by (simp add: update_policy_def vector_to_parameters_def)
  qed
  show "models (snd (update_policy cfg caps pg b_s b_a advantage a)) ! policy a = models a ! policy a"
    if "allclose pg 0 \<or> (\<forall>y. fst (policy_search cfg caps pg b_s b_a advantage a) \<noteq> Inr (True, y))"
    using that ps nth by (auto simp: update_policy_def split: sum.splits)
qed

text \<open>
  Claim C3. Let the live policy model exist in the store. Then
  \<^item> an evaluation of the surrogate loss leaves the parameters of the live model as they
    were: it writes the candidate into a copy;
  \<^item> so does a whole line search over this loss, and a line search that reports failure
    returns the very parameter vector it was given;
  \<^item> the search of a batch update (\<open>policy_search\<close>) leaves the live parameters as they
    were, and on failure it returns them;
  \<^item> the batch update writes the live parameters exactly when the gradient is not
    skipped and the search reports success: they become the new parameters (the leading
    entries of the accepted candidate, as many as the model has), and in every other
    case they are unchanged.
\<close>

theorem live_policy_written_on_acceptance:
  assumes "policy a < length (models a)"
  shows "snd (get_loss caps (policy a) b_s b_a advantage theta (models a)) ! policy a
           = models a ! policy a
     \<and> snd (line_search (get_loss caps (policy a) b_s b_a advantage) ar n x fullstep eir (models a))
           ! policy a = models a ! policy a
     \<and> (\<forall>y. fst (line_search (get_loss caps (policy a) b_s b_a advantage) ar n x fullstep eir
              (models a)) = Inr (False, y) \<longrightarrow> y = x)
     \<and> snd (policy_search cfg caps pg b_s b_a advantage a) ! policy a = models a ! policy a
     \<and> (\<forall>y. fst (policy_search cfg caps pg b_s b_a advantage a) = Inr (False, y)
            \<longrightarrow> y = models a ! policy a)
     \<and> (\<forall>new_theta. \<not> allclose pg 0 \<and>
            fst (policy_search cfg caps pg b_s b_a advantage a) = Inr (True, new_theta) \<longrightarrow>
          fst (update_policy cfg caps pg b_s b_a advantage a) = None \<and>
          models (snd (update_policy cfg caps pg b_s b_a advantage a)) ! policy a
            = take (length (models a ! policy a)) new_theta)
     \<and> (allclose pg 0 \<or>
          (\<forall>y. fst (policy_search cfg caps pg b_s b_a advantage a) \<noteq> Inr (True, y)) \<longrightarrow>
          models (snd (update_policy cfg caps pg b_s b_a advantage a)) ! policy a
            = models a ! policy a)"
proof (intro conjI allI impI)
  show "snd (get_loss caps (policy a) b_s b_a advantage theta (models a)) ! policy a
           = models a ! policy a"
    using extends_nth [OF get_loss_extends assms] .
  show "snd (line_search (get_loss caps (policy a) b_s b_a advantage) ar n x fullstep eir (models a))
           ! policy a = models a ! policy a"
    using extends_nth [OF line_search_extends [of "get_loss caps (policy a) b_s b_a advantage",
          OF get_loss_extends] assms] .
  show "y = x" if "fst (line_search (get_loss caps (policy a) b_s b_a advantage) ar n x fullstep eir
              (models a)) = Inr (False, y)" for y
    using line_search_result [OF that] by simp
  show "snd (policy_search cfg caps pg b_s b_a advantage a) ! policy a = models a ! policy a"
    using extends_nth [OF policy_search_extends assms] .
  show "y = models a ! policy a"
    if "fst (policy_search cfg caps pg b_s b_a advantage a) = Inr (False, y)" for y
    using policy_search_result [OF that] by simp
next
  fix new_theta
  assume h: "\<not> allclose pg 0 \<and>
            fst (policy_search cfg caps pg b_s b_a advantage a) = Inr (True, new_theta)"
  have ext: "extends (models a) (snd (policy_search cfg caps pg b_s b_a advantage a))"
    by (rule policy_search_extends)
  have len: "policy a < length (snd (policy_search cfg caps pg b_s b_a advantage a))"
    using extends_length [OF ext] assms by simp
  from h update_policy_frame(2) [OF assms, of pg cfg caps b_s b_a advantage new_theta]
  have u: "update_policy cfg caps pg b_s b_a advantage a =
            (None, a\<lparr>models := (snd (policy_search cfg caps pg b_s b_a advantage a))
                        [policy a := take (length (models a ! policy a)) new_theta]\<rparr>)"
    by simp
  show "fst (update_policy cfg caps pg b_s b_a advantage a) = None"
    unfolding u by simp
  show "models (snd (update_policy cfg caps pg b_s b_a advantage a)) ! policy a
            = take (length (models a ! policy a)) new_theta"
    unfolding u using len by simp
next
  assume "allclose pg 0 \<or>
          (\<forall>y. fst (policy_search cfg caps pg b_s b_a advantage a) \<noteq> Inr (True, y))"
  then show "models (snd (update_policy cfg caps pg b_s b_a advantage a)) ! policy a
            = models a ! policy a"
    by (rule update_policy_frame(3) [OF assms])
qed

section \<open>Properties of the float32 rounding\<close>

lemma round_half_even_down:
  "of_int f \<le> y \<Longrightarrow> y < of_int f + 1 / 2 \<Longrightarrow> round_half_even y = f"
proof -
  assume a: "of_int f \<le> y" "y < of_int f + 1 / 2"
  then have "\<lfloor>y\<rfloor> = f" by linarith
  with a show ?thesis by (simp add: round_half_even_def Let_def)
qed

lemma round_half_even_tie:
  "y = of_int f + 1 / 2 \<Longrightarrow> even f \<Longrightarrow> round_half_even y = f"
proof -
  assume a: "y = of_int f + 1 / 2" "even f"
  then have "\<lfloor>y\<rfloor> = f" by linarith
  with a show ?thesis by (simp add: round_half_even_def Let_def)
qed

lemma float32_eval:
  assumes "x \<noteq> 0" and "2 powr of_int e \<le> \<bar>x\<bar>" and "\<bar>x\<bar> < 2 powr (of_int e + 1)"
    and "- 126 \<le> e"
    and "round_half_even (x / 2 powr (of_int e - 23)) = k"
    and "\<bar>real_of_int k * 2 powr (of_int e - 23)\<bar> \<le> (2 - 1 / 2 ^ 23) * 2 ^ 127"
  shows "float32 x = Inr (of_int k * 2 powr (of_int e - 23))"
proof -
  have "\<lfloor>log 2 \<bar>x\<bar>\<rfloor> = e"
    using assms(1-3) by (subst floor_log_eq_powr_iff) simp_all
  with assms(1,4,5,6) show ?thesis by (simp add: float32_def Let_def max_def)
qed

lemma float32_zero: "float32 0 = Inr 0"
  by (simp add: float32_def)

lemma float32_one: "float32 1 = Inr 1"
  using float32_eval [of 1 0 "2 ^ 23"] round_half_even_down [of "2 ^ 23" "2 ^ 23"]
  by (simp add: powr_neg_numeral)

lemma float32_minus_one: "float32 (- 1) = Inr (- 1)"
  using float32_eval [of "- 1" 0 "- (2 ^ 23)"]
    round_half_even_down [of "- (2 ^ 23)" "- (2 ^ 23)"]
  by (simp add: powr_neg_numeral)

lemma float32_next_one: "float32 (1 + 1 / 2 ^ 23) = Inr (1 + 1 / 2 ^ 23)"
  using float32_eval [of "1 + 1 / 2 ^ 23" 0 "2 ^ 23 + 1"]
    round_half_even_down [of "2 ^ 23 + 1" "2 ^ 23 + 1"]
  by (simp add: powr_neg_numeral)

lemma float32_tie_one: "float32 (1 + 1 / 2 ^ 24) = Inr 1"
  using float32_eval [of "1 + 1 / 2 ^ 24" 0 "2 ^ 23"]
    round_half_even_tie [of "2 ^ 23 + 1 / 2" "2 ^ 23"]
  by (simp add: powr_neg_numeral)

lemma float32_ulp_one: "float32 (1 / 2 ^ 23) = Inr (1 / 2 ^ 23)"
  using float32_eval [of "1 / 2 ^ 23" "- 23" "2 ^ 23"]
    round_half_even_down [of "2 ^ 23" "2 ^ 23"]
  by (simp add: powr_neg_numeral)

lemma float32_quotient: "float32 (2 ^ 24 / 11863283) = Inr (11863283 / 2 ^ 23)"
  using float32_eval [of "2 ^ 24 / 11863283" 0 "11863283"]
    round_half_even_down [of "11863283" "2 ^ 47 / 11863283"]
  by (simp add: powr_neg_numeral)

lemma sqrt_bounds: "11863283 \<le> sqrt (2 ^ 47)" "sqrt (2 ^ 47) < 11863283 + 1 / 2"
proof -
  show "11863283 \<le> sqrt (2 ^ 47)" by (rule real_le_rsqrt) simp
  show "sqrt (2 ^ 47) < 11863283 + 1 / 2"
    by (rule real_less_lsqrt) (simp_all add: power2_eq_square)
qed

lemma float32_sqrt: "float32 (sqrt (2 ^ 47) / 2 ^ 47) = Inr (11863283 / 2 ^ 47)"
proof -
  have r: "round_half_even (sqrt (2 ^ 47)) = 11863283"
    using round_half_even_down [of 11863283 "sqrt (2 ^ 47)"] sqrt_bounds by simp
  have lo: "1 / 2 ^ 24 \<le> sqrt (2 ^ 47) / 2 ^ 47" using sqrt_bounds(1) by (simp add: field_simps)
  have hi: "sqrt (2 ^ 47) / 2 ^ 47 < 1 / 2 ^ 23" using sqrt_bounds(2) by (simp add: field_simps)
  from float32_eval [of "sqrt (2 ^ 47) / 2 ^ 47" "- 24" 11863283] r lo hi
  show ?thesis by (simp add: powr_neg_numeral)
qed

lemma tensor_of_exact [simp]: "tensor_of Inr u = Inr u"
  by (induction u) simp_all

lemma standardize_exact:
  "standardize advantage =
     (case tensor_mean advantage of
        Inl e \<Rightarrow> Inl e
      | Inr m \<Rightarrow>
          (case tensor_std advantage of
             Inl e \<Rightarrow> Inl e
           | Inr sd \<Rightarrow>
               if sd = 0 then Inl NonFinite
               else Inr (map (\<lambda>a. (a - m) / sd) advantage)))"
  by (simp add: standardize_def standardize_with_def comp_def split: sum.splits)

section \<open>The small instance, evaluated\<close>

lemma toy_standardize: "standardize [- 1, 0, 1] = Inr [- 1, 0, 1]"
  by (simp add: standardize_exact tensor_mean_def tensor_std_def)

lemma toy_advantage: "advantage_of float32 [- 1, 0, 1] [0, 0, 0] = Inr [- 1, 0, 1]"
  by (simp add: advantage_of_def standardize_with_def tensor_mean_def tensor_std_def vsub_def
      float32_zero float32_one float32_minus_one)

lemma toy_objective:
  "batch_objective toy_caps [[1 / 2, 1 / 2], [1 / 2, 1 / 2], [1 / 2, 1 / 2]] [1, 0, 0] [- 1, 0, 1]
     = Inr ([1 / 2, 1 / 2, 1 / 2], [1 / 2, 1 / 2, 1 / 2], 0)"
  by (simp add: batch_objective_def toy_caps_def gather_def detach_def weighted_mean_def
      tensor_div_def broadcast_def tensor_mean_def Let_def)

lemmas tensor_eval = gather_def detach_def weighted_mean_def tensor_div_def broadcast_def
  tensor_mean_def slice_def vsub_def Let_def

lemma toy_values:
  "value_forward toy_caps w s = 0" "value_step toy_caps w b_s b_r = w"
  by (simp_all add: toy_caps_def)

lemma toy_slices_first:
  "slice (traj_s toy_traj) 0 3 = [(), (), ()]"
  "slice (traj_a toy_traj) 0 3 = [1, 0, 0]"
  "slice (traj_r toy_traj) 0 3 = [- 1, 0, 1]"
  "slice (traj_p toy_traj) 0 3 = [[1 / 2, 1 / 2], [1 / 2, 1 / 2], [1 / 2, 1 / 2]]"
  by (simp_all add: toy_traj_def slice_def)

lemma toy_objective_at:
  "objective_at toy_caps [[1 / 2, 1 / 2], [1 / 2, 1 / 2], [1 / 2, 1 / 2]] [1, 0, 0] [- 1, 0, 1]
     [1 / 2, 1 / 2, 1 / 2] \<theta> = (4 * \<theta> ! 0 - 2) / 3"
  by (simp add: objective_at_def toy_caps_def tensor_eval field_simps)

lemma toy_policy_gradient:
  "policy_gradient toy_caps [[1 / 2, 1 / 2], [1 / 2, 1 / 2], [1 / 2, 1 / 2]] [1, 0, 0] [- 1, 0, 1]
     [1 / 2, 1 / 2, 1 / 2] = [- (4 / 3)]"
  unfolding policy_gradient_def toy_objective_at by (simp add: toy_caps_def)

lemma toy_gradient_first:
  "batch_gradient toy_caps toy_traj 3 0 toy_agent =
     (Inr ([(), (), ()], [1, 0, 0], [- 1, 0, 1], [- (4 / 3)]), toy_agent)"
  by (simp add: batch_gradient_def Let_def toy_slices_first toy_values toy_advantage
      toy_objective toy_policy_gradient toy_agent_def del: One_nat_def)

lemma toy_cg:
  "cg (fvp toy_cfg toy_caps [1 / 2] [(), (), ()]) (cg_tol toy_cfg) (cg_iters toy_cfg) (vneg [- (4 / 3)])
     = Inr [1 / 3]"
  by (simp add: cg_eval fvp_def toy_cfg_def toy_caps_def default_config_def vneg_def eval_nat_numeral)

lemma toy_loss:
  "get_loss toy_caps 0 [(), (), ()] [1, 0, 0] [- 1, 0, 1] [t] h =
     (Inr (- ((4 * t - 2) / 3)), h @ [[t]])" if "h ! 0 = [1 / 2]" "h \<noteq> []"
  using that
  by (cases h) (simp_all add: get_loss_def toy_caps_def deepcopy_def vector_to_parameters_def
      tensor_eval nth_append field_simps)


lemma toy_search:
  "policy_search toy_cfg toy_caps [- (4 / 3)] [(), (), ()] [1, 0, 0] [- 1, 0, 1] toy_agent =
     (Inr (True, [2 / 3]), [[1 / 2], [1 / 2], [2 / 3]])"
proof -
  have f: "fvp toy_cfg toy_caps [1 / 2] [(), (), ()] [1 / 3] = [4 / 3]"
    by (simp add: fvp_def toy_cfg_def toy_caps_def default_config_def vadd_def smul_def)
  have l0: "get_loss toy_caps 0 [(), (), ()] [1, 0, 0] [- 1, 0, 1] [1 / 2] [[1 / 2]] =
      (Inr 0, [[1 / 2], [1 / 2]])"
    using toy_loss [of "[[1 / 2]]" "1 / 2"] by simp
  have l1: "get_loss toy_caps 0 [(), (), ()] [1, 0, 0] [- 1, 0, 1] [2 / 3] [[1 / 2], [1 / 2]] =
      (Inr (- (2 / 9)), [[1 / 2], [1 / 2], [2 / 3]])"
    using toy_loss [of "[[1 / 2], [1 / 2]]" "2 / 3"] by simp
  have ls: "line_search (get_loss toy_caps 0 [(), (), ()] [1, 0, 0] [- 1, 0, 1]) (9 / 10) 10
      [1 / 2] [1 / 6] (Num (2 / 9)) [[1 / 2]] = (Inr (True, [2 / 3]), [[1 / 2], [1 / 2], [2 / 3]])"
    by (simp add: line_search_def l0 l1 upt_conv_Cons broadcast_def smul_def Let_def
        del: One_nat_def)
  show ?thesis
    by (simp add: policy_search_def toy_agent_def toy_cg f Let_def parameters_to_vector_def
        del: One_nat_def)
       (simp add: toy_cfg_def default_config_def ls del: One_nat_def)
qed

section \<open>The live policy in a batch update\<close>

theorem live_policy_written_on_acceptance_witness:
  "snd (policy_search toy_cfg toy_caps [- (4 / 3)] [(), (), ()] [1, 0, 0] [- 1, 0, 1] toy_agent) ! 0
     = [1 / 2]
   \<and> fst (update_policy toy_cfg toy_caps [- (4 / 3)] [(), (), ()] [1, 0, 0] [- 1, 0, 1] toy_agent)
     = None
   \<and> models (snd (update_policy toy_cfg toy_caps [- (4 / 3)] [(), (), ()] [1, 0, 0] [- 1, 0, 1]
        toy_agent)) ! 0 = [2 / 3]"
proof -
  have live: "policy toy_agent < length (models toy_agent)"
    by (simp add: toy_agent_def)
  have nz: "\<not> allclose [- (4 / 3)] 0"
    by (simp add: allclose_def)
  have p: "policy toy_agent = 0" "models toy_agent ! 0 = [1 / 2]"
    by (simp_all add: toy_agent_def)
  have s: "fst (policy_search toy_cfg toy_caps [- (4 / 3)] [(), (), ()] [1, 0, 0] [- 1, 0, 1]
      toy_agent) = Inr (True, [2 / 3])"
    unfolding toy_search by simp
  note T = live_policy_written_on_acceptance [OF live, of toy_caps "[(), (), ()]" "[1, 0, 0]"
      "[- 1, 0, 1]" "[1 / 2]" "9 / 10" 10 "[1 / 2]" "[1 / 6]" "Num (2 / 9)" toy_cfg "[- (4 / 3)]"]
  note T4 = T [THEN conjunct2, THEN conjunct2, THEN conjunct2, THEN conjunct1]
  note T6 = T [THEN conjunct2, THEN conjunct2, THEN conjunct2, THEN conjunct2, THEN conjunct2,
      THEN conjunct1, rule_format, of "[2 / 3]", OF conjI [OF nz s]]
  from T4 have a: "snd (policy_search toy_cfg toy_caps [- (4 / 3)] [(), (), ()] [1, 0, 0]
      [- 1, 0, 1] toy_agent) ! 0 = [1 / 2]"
    unfolding p .
  from T6 have b: "fst (update_policy toy_cfg toy_caps [- (4 / 3)] [(), (), ()] [1, 0, 0]
      [- 1, 0, 1] toy_agent) = None"
    and c: "models (snd (update_policy toy_cfg toy_caps [- (4 / 3)] [(), (), ()] [1, 0, 0]
      [- 1, 0, 1] toy_agent)) ! 0 = [2 / 3]"
    unfolding p by simp_all
  from a b c show ?thesis by (intro conjI)
qed

lemma batch_gradient_frame:
  "batch_gradient caps trajectories batch_size index a = (r, a1) \<Longrightarrow>
   models a1 = models a \<and> policy a1 = policy a \<and> logged a1 = logged a"
  by (auto simp: batch_gradient_def Let_def split: sum.splits prod.splits)

text \<open>
  A batch whose advantage is not finite: the value network makes its step, the policy, the
  store and the log are as they were, and the batch loop goes on. For the returns
  \<open>[1, 1]\<close> of two steps (the standard deviation is zero) the small instance does so.
\<close>

lemma nonfinite_batch_goes_on:
  assumes "batch_gradient caps trajectories batch_size index a = (Inl NonFinite, a1)"
  shows "learn_batch cfg caps trajectories batch_size index a = (None, a1)"
    and "a1 = a\<lparr>val := value_step caps (val a)
          (slice (traj_s trajectories) index (index + batch_size))
          (slice (traj_r trajectories) index (index + batch_size))\<rparr>"
    and "batch_loop cfg caps trajectories batch_size (index # indices) a =
          batch_loop cfg caps trajectories batch_size indices a1"
proof -
  show l: "learn_batch cfg caps trajectories batch_size index a = (None, a1)"
    using assms by (simp add: learn_batch_def)
  show "a1 = a\<lparr>val := value_step caps (val a)
          (slice (traj_s trajectories) index (index + batch_size))
          (slice (traj_r trajectories) index (index + batch_size))\<rparr>"
    using assms by (auto simp: batch_gradient_def Let_def split: sum.splits prod.splits)
  show "batch_loop cfg caps trajectories batch_size (index # indices) a =
          batch_loop cfg caps trajectories batch_size indices a1"
    by (simp add: l)
qed

lemma toy_nonfinite_batch:
  "learn_batch toy_cfg toy_caps
     \<lparr>traj_s = [(), ()], traj_a = [1, 0], traj_r = [1, 1],
      traj_p = [[1 / 2, 1 / 2], [1 / 2, 1 / 2]]\<rparr> 2 0 toy_agent = (None, toy_agent)"
proof -
  have adv: "advantage_of float32 [1, 1] [0, 0] = Inl NonFinite"
    by (simp add: advantage_of_def standardize_with_def tensor_mean_def tensor_std_def vsub_def
        float32_zero float32_one)
  have g: "gather [data toy_caps [1 / 2, 1 / 2], data toy_caps [1 / 2, 1 / 2]] [1, 0]
      = Inr [1 / 2, 1 / 2]"
    by (simp add: gather_def toy_caps_def)
  have "batch_gradient toy_caps
     \<lparr>traj_s = [(), ()], traj_a = [1, 0], traj_r = [1, 1],
      traj_p = [[1 / 2, 1 / 2], [1 / 2, 1 / 2]]\<rparr> 2 0 toy_agent = (Inl NonFinite, toy_agent)"
    by (simp add: batch_gradient_def Let_def slice_def toy_values adv g toy_agent_def
        del: One_nat_def)
  from nonfinite_batch_goes_on(1) [OF this] show ?thesis .
qed

text \<open>
  Claim C7. The gradient is within tolerance of zero when every component is at most
  \<open>10\<^sup>-\<^sup>8\<close> in absolute value (\<^verbatim>\<open>numpy.allclose(pg, 0)\<close>). Then the update of the
  policy does nothing but log the warning: no conjugate gradients, no step scaling, no
  line search (the store holds no new copy of the model) and no write of the
  parameters. A batch whose gradient is such ends without failure, with the store and
  the live policy as they were, and the batch loop goes on with the next batch.
\<close>

theorem zero_gradient_skip:
  "(allclose pg 0 \<longleftrightarrow> (\<forall>g \<in> set pg. \<bar>g\<bar> \<le> 1 / 10 ^ 8))
   \<and> (allclose pg 0 \<longrightarrow>
        update_policy cfg caps pg b_s b_a advantage a =
          (None, a\<lparr>logged := logged a @ [''got zero gradient. not updating'']\<rparr>))
   \<and> (batch_gradient caps trajectories batch_size index a = (Inr (b_s, b_a, advantage, pg), a1)
        \<and> allclose pg 0 \<longrightarrow>
        learn_batch cfg caps trajectories batch_size index a =
          (None, a1\<lparr>logged := logged a @ [''got zero gradient. not updating'']\<rparr>)
        \<and> models a1 = models a \<and> policy a1 = policy a
        \<and> batch_loop cfg caps trajectories batch_size (index # indices) a =
            batch_loop cfg caps trajectories batch_size indices
              (a1\<lparr>logged := logged a @ [''got zero gradient. not updating'']\<rparr>))"
proof (intro conjI impI)
  show "allclose pg 0 \<longleftrightarrow> (\<forall>g \<in> set pg. \<bar>g\<bar> \<le> 1 / 10 ^ 8)"
    by (simp add: allclose_def list_all_iff)
  show "update_policy cfg caps pg b_s b_a advantage a =
          (None, a\<lparr>logged := logged a @ [''got zero gradient. not updating'']\<rparr>)"
    if "allclose pg 0"
    using that by (simp add: update_policy_def)
next
  assume h: "batch_gradient caps trajectories batch_size index a = (Inr (b_s, b_a, advantage, pg), a1)
        \<and> allclose pg 0"
  from batch_gradient_frame [of caps trajectories batch_size index a _ a1] h
  have fr: "models a1 = models a" "policy a1 = policy a" "logged a1 = logged a" by auto
  from fr show "models a1 = models a" "policy a1 = policy a" by simp_all
  from h fr show lb: "learn_batch cfg caps trajectories batch_size index a =
          (None, a1\<lparr>logged := logged a @ [''got zero gradient. not updating'']\<rparr>)"
    by (simp add: learn_batch_def update_policy_def)
  show "batch_loop cfg caps trajectories batch_size (index # indices) a =
            batch_loop cfg caps trajectories batch_size indices
              (a1\<lparr>logged := logged a @ [''got zero gradient. not updating'']\<rparr>)"
    by (simp add: lb)
qed

lemma toy_gradient_zero:
  "batch_gradient toy_caps (toy_traj\<lparr>traj_a := [0, 0, 0, 0, 0, 0]\<rparr>) 3 0 toy_agent =
     (Inr ([(), (), ()], [0, 0, 0], [- 1, 0, 1], [0]), toy_agent)"
proof -
  have sl: "slice [0, 0, 0, 0, 0, 0 :: nat] 0 3 = [0, 0, 0]"
    by (simp add: slice_def)
  have ob: "batch_objective toy_caps [[1 / 2, 1 / 2], [1 / 2, 1 / 2], [1 / 2, 1 / 2]] [0, 0, 0]
      [- 1, 0, 1] = Inr ([1 / 2, 1 / 2, 1 / 2], [1 / 2, 1 / 2, 1 / 2], 0)"
    by (simp add: batch_objective_def toy_caps_def tensor_eval)
  have oa: "objective_at toy_caps [[1 / 2, 1 / 2], [1 / 2, 1 / 2], [1 / 2, 1 / 2]] [0, 0, 0]
      [- 1, 0, 1] [1 / 2, 1 / 2, 1 / 2] \<theta> = 0" for \<theta>
    by (simp add: objective_at_def toy_caps_def tensor_eval)
  have pg: "policy_gradient toy_caps [[1 / 2, 1 / 2], [1 / 2, 1 / 2], [1 / 2, 1 / 2]] [0, 0, 0]
      [- 1, 0, 1] [1 / 2, 1 / 2, 1 / 2] = [0]"
    unfolding policy_gradient_def oa by (simp add: toy_caps_def)
  show ?thesis
    by (simp add: batch_gradient_def Let_def toy_slices_first sl toy_values toy_advantage ob pg
        toy_agent_def del: One_nat_def)
qed

theorem zero_gradient_skip_witness:
  "learn_batch toy_cfg toy_caps (toy_traj\<lparr>traj_a := [0, 0, 0, 0, 0, 0]\<rparr>) 3 0 toy_agent =
     (None, toy_agent\<lparr>logged := [''got zero gradient. not updating'']\<rparr>)
   \<and> batch_loop toy_cfg toy_caps (toy_traj\<lparr>traj_a := [0, 0, 0, 0, 0, 0]\<rparr>) 3 [0, 3] toy_agent =
     batch_loop toy_cfg toy_caps (toy_traj\<lparr>traj_a := [0, 0, 0, 0, 0, 0]\<rparr>) 3 [3]
       (toy_agent\<lparr>logged := [''got zero gradient. not updating'']\<rparr>)"
proof -
  have z: "allclose [0] 0" by (simp add: allclose_def)
  have l: "logged toy_agent @ [''got zero gradient. not updating'']
      = [''got zero gradient. not updating'']"
    by (simp add: toy_agent_def)
  note T = zero_gradient_skip [of "[0]" toy_cfg toy_caps "[(), (), ()]" "[0, 0, 0]" "[- 1, 0, 1]"
      toy_agent "toy_traj\<lparr>traj_a := [0, 0, 0, 0, 0, 0]\<rparr>" 3 0 toy_agent "[3]"]
  note T3 = T [THEN conjunct2, THEN conjunct2, rule_format, OF conjI [OF toy_gradient_zero z]]
  from T3 [THEN conjunct1] T3 [THEN conjunct2, THEN conjunct2, THEN conjunct2]
  show ?thesis unfolding l by (intro conjI)
qed

section \<open>Properties of the standardized advantage\<close>

lemma sum_list_centered:
  "sum_list (map (\<lambda>a. (a - m) / sd) u) = (sum_list u - real (length u) * m) / (sd :: real)"
  by (induction u) (simp_all add: add_divide_distrib diff_divide_distrib algebra_simps)

lemma sum_list_scaled_squares:
  "sum_list (map (\<lambda>b. (b - 0)\<^sup>2) (map (\<lambda>a. (a - m) / sd) u))
     = sum_list (map (\<lambda>a. (a - m)\<^sup>2) u) / (sd :: real)\<^sup>2"
  by (induction u) (simp_all add: power_divide add_divide_distrib)

lemma standardize_Inr:
  assumes "standardize adv = Inr out"
  shows "tensor_mean out = Inr 0 \<and> tensor_std out = Inr 1 \<and> length out = length adv"
proof -
  let ?n = "length adv"
  let ?m = "sum_list adv / real ?n"
  let ?S = "sum_list (map (\<lambda>a. (a - ?m)\<^sup>2) adv)"
  let ?sd = "sqrt (?S / real (?n - 1))"
  from assms have n: "2 \<le> ?n" and sd: "?sd \<noteq> 0" and out: "out = map (\<lambda>a. (a - ?m) / ?sd) adv"
    by (auto simp: standardize_exact tensor_mean_def tensor_std_def Let_def split: if_splits)
  have S: "0 \<le> ?S" by (rule sum_list_nonneg) auto
  then have q: "0 \<le> ?S / real (?n - 1)" by simp
  have sd2: "?sd\<^sup>2 = ?S / real (?n - 1)" using q by simp
  have mean0: "sum_list out = 0"
    unfolding out sum_list_centered using n by simp
  have len: "length out = ?n" by (simp add: out)
  have "sum_list (map (\<lambda>b. (b - 0)\<^sup>2) out) / real (?n - 1) = (?S / ?sd\<^sup>2) / real (?n - 1)"
    unfolding out sum_list_scaled_squares ..
  also have "\<dots> = (?S / real (?n - 1)) / ?sd\<^sup>2" by simp
  also have "\<dots> = 1" using sd sd2 by simp
  finally have var1: "sum_list (map (\<lambda>b. (b - 0)\<^sup>2) out) / real (?n - 1) = 1" .
  have "tensor_mean out = Inr 0"
    using n len mean0 by (auto simp: tensor_mean_def)
  moreover have "tensor_std out = Inr 1"
    using n len mean0 var1 by (simp add: tensor_std_def)
  ultimately show ?thesis using len by simp
qed

lemma float32_error: "float32 x = Inl e \<Longrightarrow> e = NonFinite"
  by (auto simp: float32_def Let_def split: if_splits)

lemma tensor_of_float32_error: "tensor_of float32 u = Inl e \<Longrightarrow> e = NonFinite"
proof (induction u)
  case Nil
  then show ?case by simp
next
  case (Cons a u)
  then show ?case
    by (auto dest: float32_error split: sum.splits)
qed

lemma tensor_of_Inr:
  "tensor_of fl u = Inr w \<Longrightarrow> length w = length u \<and> (\<forall>i < length u. fl (u ! i) = Inr (w ! i))"
proof (induction u arbitrary: w)
  case Nil
  then show ?case by simp
next
  case (Cons a u)
  from Cons.prems obtain b w' where b: "fl a = Inr b" and w': "tensor_of fl u = Inr w'"
    and w: "w = b # w'"
    by (auto split: sum.splits)
  from Cons.IH [OF w'] have l: "length w' = length u"
    and n: "\<And>i. i < length u \<Longrightarrow> fl (u ! i) = Inr (w' ! i)" by simp_all
  have "fl ((a # u) ! i) = Inr (w ! i)" if "i < length (a # u)" for i
    using that b n w by (cases i) simp_all
  with l w show ?case by simp
qed

lemma standardize_with_float32_error:
  "standardize_with float32 adv = Inl e \<Longrightarrow> e = NonFinite"
  by (auto simp: standardize_with_def tensor_mean_def tensor_std_def Let_def
      dest: float32_error tensor_of_float32_error split: sum.splits if_splits)

lemma standardize_with_Inr:
  assumes "standardize_with fl adv = Inr out"
  shows "\<exists>m sd m' sd'. tensor_mean adv = Inr m \<and> tensor_std adv = Inr sd \<and>
     fl m = Inr m' \<and> fl sd = Inr sd' \<and> sd' \<noteq> 0 \<and> length out = length adv \<and>
     (\<forall>i < length adv. \<exists>c. fl (adv ! i - m') = Inr c \<and> fl (c / sd') = Inr (out ! i))"
proof -
  from assms obtain m m' centered sd sd' where m: "tensor_mean adv = Inr m" "fl m = Inr m'"
    and c: "tensor_of fl (map (\<lambda>a. a - m') adv) = Inr centered"
    and sd: "tensor_std adv = Inr sd" "fl sd = Inr sd'" "sd' \<noteq> 0"
    and out: "tensor_of fl (map (\<lambda>c. c / sd') centered) = Inr out"
    by (auto simp: standardize_with_def split: sum.splits if_splits)
  from tensor_of_Inr [OF c] have lc: "length centered = length adv"
    and nc: "\<And>i. i < length adv \<Longrightarrow> fl (adv ! i - m') = Inr (centered ! i)" by simp_all
  from tensor_of_Inr [OF out] lc have lo: "length out = length adv"
    and no: "\<And>i. i < length adv \<Longrightarrow> fl (centered ! i / sd') = Inr (out ! i)" by simp_all
  from m sd lo nc no show ?thesis by blast
qed

text \<open>
  Claim C6, as the code has it. The advantage is standardized with no guard. In exact
  arithmetic the standardization yields a vector exactly when the batch has a standard
  deviation (two entries or more) and this is not zero, and then the sample mean of the
  result is \<open>0\<close> and its sample standard deviation is \<open>1\<close>. On the float32 tensors of
  the code, a result is, entry by entry, the rounded quotient, by the rounded standard
  deviation, of the rounded difference of the entry and the rounded mean; nothing is said
  about its mean and its standard deviation. When the standard deviation is zero, when it
  rounds to zero, and when there is none (a batch of one step), the division is carried out
  all the same and the result is not a vector of finite numbers.
\<close>

theorem standardize_mean_std:
  "(standardize adv = Inr out \<longrightarrow>
      tensor_mean out = Inr 0 \<and> tensor_std out = Inr 1 \<and> length out = length adv)
   \<and> ((\<exists>y. standardize adv = Inr y) \<longleftrightarrow> (\<exists>sd. tensor_std adv = Inr sd \<and> sd \<noteq> 0))
   \<and> (tensor_std adv = Inr 0 \<longrightarrow> standardize adv = Inl NonFinite)
   \<and> (standardize_with float32 adv = Inr out' \<longrightarrow>
        (\<exists>m sd m' sd'. tensor_mean adv = Inr m \<and> tensor_std adv = Inr sd \<and>
           float32 m = Inr m' \<and> float32 sd = Inr sd' \<and> sd' \<noteq> 0 \<and> length out' = length adv \<and>
           (\<forall>i < length adv. \<exists>c. float32 (adv ! i - m') = Inr c \<and>
              float32 (c / sd') = Inr (out' ! i))))
   \<and> ((\<forall>sd. tensor_std adv = Inr sd \<longrightarrow> float32 sd = Inr 0) \<longrightarrow>
        standardize_with float32 adv = Inl NonFinite)"
proof (intro conjI impI)
  show "tensor_mean out = Inr 0" "tensor_std out = Inr 1" "length out = length adv"
    if "standardize adv = Inr out"
    using standardize_Inr [OF that] by simp_all
  show "(\<exists>y. standardize adv = Inr y) \<longleftrightarrow> (\<exists>sd. tensor_std adv = Inr sd \<and> sd \<noteq> 0)"
    by (auto simp: standardize_exact tensor_mean_def tensor_std_def Let_def split: if_splits)
  show "standardize adv = Inl NonFinite" if "tensor_std adv = Inr 0"
    using that by (auto simp: standardize_exact tensor_mean_def tensor_std_def Let_def split: if_splits)
  show "\<exists>m sd m' sd'. tensor_mean adv = Inr m \<and> tensor_std adv = Inr sd \<and>
           float32 m = Inr m' \<and> float32 sd = Inr sd' \<and> sd' \<noteq> 0 \<and> length out' = length adv \<and>
           (\<forall>i < length adv. \<exists>c. float32 (adv ! i - m') = Inr c \<and>
              float32 (c / sd') = Inr (out' ! i))"
    if "standardize_with float32 adv = Inr out'"
    using that by (rule standardize_with_Inr)
  show "standardize_with float32 adv = Inl NonFinite"
    if z: "\<forall>sd. tensor_std adv = Inr sd \<longrightarrow> float32 sd = Inr 0"
  proof (cases "standardize_with float32 adv")
    case (Inl e)
    with standardize_with_float32_error [OF Inl] show ?thesis by simp
  next
    case (Inr y)
    from standardize_with_Inr [OF Inr] z show ?thesis by auto
  qed
qed

lemma toy_standardize_float32: "standardize_with float32 [- 1, 0, 1] = Inr [- 1, 0, 1]"
  by (simp add: standardize_with_def tensor_mean_def tensor_std_def
      float32_zero float32_one float32_minus_one)

theorem standardize_mean_std_witness:
  "standardize [- 1, 0, 1] = Inr [- 1, 0, 1] \<and> tensor_mean [- 1, 0, 1] = Inr 0
   \<and> tensor_std [- 1, 0, 1] = Inr 1
   \<and> (\<exists>m sd m' sd'. tensor_mean [- 1, 0, 1] = Inr m \<and> tensor_std [- 1, 0, 1] = Inr sd \<and>
         float32 m = Inr m' \<and> float32 sd = Inr sd' \<and> sd' \<noteq> 0)
   \<and> standardize_with float32 [1, 1] = Inl NonFinite"
proof -
  note T = standardize_mean_std [of "[- 1, 0, 1]" "[- 1, 0, 1]" "[- 1, 0, 1]"]
  have z: "\<forall>sd. tensor_std [1, 1] = Inr sd \<longrightarrow> float32 sd = Inr 0"
    by (simp add: tensor_std_def float32_zero)
  from T [THEN conjunct1] toy_standardize
  have a: "tensor_mean [- 1, 0, 1] = Inr 0 \<and> tensor_std [- 1, 0, 1] = Inr 1" by simp
  from T [THEN conjunct2, THEN conjunct2, THEN conjunct2, THEN conjunct1, rule_format,
      OF toy_standardize_float32]
  have b: "\<exists>m sd m' sd'. tensor_mean [- 1, 0, 1] = Inr m \<and> tensor_std [- 1, 0, 1] = Inr sd \<and>
         float32 m = Inr m' \<and> float32 sd = Inr sd' \<and> sd' \<noteq> 0"
    by blast
  from standardize_mean_std [of "[1, 1]" "[]" "[]", THEN conjunct2, THEN conjunct2,
      THEN conjunct2, THEN conjunct2, THEN mp, OF z]
  have c: "standardize_with float32 [1, 1] = Inl NonFinite" .
  from a b c toy_standardize show ?thesis by (intro conjI) simp_all
qed

lemma std_neighbours: "tensor_std [1, 1 + 1 / 2 ^ 23] = Inr (sqrt (2 ^ 47) / 2 ^ 47)"
proof -
  have "sqrt (2 ^ 47) * sqrt (2 ^ 47) = (2 ^ 47 :: real)" by simp
  then have e: "1 / sqrt (2 ^ 47) = sqrt (2 ^ 47) / 2 ^ 47"
    by (simp add: field_simps)
  have "tensor_std [1, 1 + 1 / 2 ^ 23] = Inr (sqrt (1 / 2 ^ 47))"
    by (simp add: tensor_std_def power2_eq_square)
  also have "sqrt (1 / 2 ^ 47) = 1 / sqrt (2 ^ 47)" by (simp add: real_sqrt_divide)
  finally show ?thesis unfolding e .
qed

text \<open>
  The claim C6 as stated says that the standardization is skipped or guarded when the
  variance is zero, and that for every batch of nonzero variance the mean of the result
  is within \<open>10\<^sup>-\<^sup>6\<close> of \<open>0\<close>. For the returns \<open>[1, 1]\<close> and the baselines \<open>[0, 0]\<close>
  the standard deviation is \<open>0\<close> and the code divides by it; for a batch of one step the
  standard deviation itself is \<^verbatim>\<open>nan\<close>. For the returns \<open>[1, 1 + 2\<^sup>-\<^sup>2\<^sup>3]\<close>, two
  neighbours among the floats, the standard deviation is \<open>2\<^sup>-\<^sup>2\<^sup>4 \<sqdot> \<surd>2\<close>, not zero; their
  mean \<open>1 + 2\<^sup>-\<^sup>2\<^sup>4\<close> is rounded to \<open>1\<close>, and the standardized advantage is
  \<open>[0, 11863283 / 2\<^sup>2\<^sup>3]\<close>, about \<open>[0, 1.41]\<close>, with a mean of about \<open>0.71\<close>.
\<close>

theorem standardize_zero_variance_counterexample:
  "tensor_std [1, 1] = Inr 0 \<and> advantage_of float32 [1, 1] [0, 0] = Inl NonFinite
   \<and> standardize [1, 1] = Inl NonFinite
   \<and> advantage_of float32 [5] [0] = Inl NonFinite
   \<and> tensor_std [1, 1 + 1 / 2 ^ 23] = Inr (sqrt (2 ^ 47) / 2 ^ 47) \<and> sqrt (2 ^ 47) / 2 ^ 47 \<noteq> 0
   \<and> advantage_of float32 [1, 1 + 1 / 2 ^ 23] [0, 0] = Inr [0, 11863283 / 2 ^ 23]
   \<and> tensor_mean [0, 11863283 / 2 ^ 23] = Inr (11863283 / 2 ^ 24)
   \<and> \<not> \<bar>11863283 / 2 ^ 24 - 0\<bar> \<le> (1 / 10 ^ 6 :: real)"
proof (intro conjI)
  show "tensor_std [1, 1] = Inr 0" by (simp add: tensor_std_def)
  show "advantage_of float32 [1, 1] [0, 0] = Inl NonFinite"
    by (simp add: advantage_of_def standardize_with_def tensor_mean_def tensor_std_def vsub_def
        float32_zero float32_one)
  show "standardize [1, 1] = Inl NonFinite"
    by (simp add: standardize_exact tensor_mean_def tensor_std_def)
  show "advantage_of float32 [5] [0] = Inl NonFinite"
    by (auto simp: advantage_of_def standardize_with_def tensor_mean_def tensor_std_def vsub_def
        dest: float32_error split: sum.splits)
  show "tensor_std [1, 1 + 1 / 2 ^ 23] = Inr (sqrt (2 ^ 47) / 2 ^ 47)" by (rule std_neighbours)
  show "sqrt (2 ^ 47) / 2 ^ 47 \<noteq> 0" by simp
  have m: "tensor_mean [1, 1 + 1 / 2 ^ 23] = Inr (1 + 1 / 2 ^ 24)"
    by (simp add: tensor_mean_def)
  have s: "standardize_with float32 [1, 1 + 1 / 2 ^ 23] = Inr [0, 11863283 / 2 ^ 23]"
    unfolding standardize_with_def m std_neighbours
    by (simp add: float32_tie_one [simplified] float32_zero float32_ulp_one [simplified]
        float32_sqrt [simplified] float32_quotient [simplified])
  have t: "tensor_of float32 [1, 1 + 1 / 2 ^ 23] = Inr [1, 1 + 1 / 2 ^ 23]"
    by (simp add: float32_one float32_next_one [simplified])
  have v: "vsub [1, 1 + 1 / 2 ^ 23] [0, 0] = [1, 1 + 1 / 2 ^ 23]"
    by (simp add: vsub_def)
  show "advantage_of float32 [1, 1 + 1 / 2 ^ 23] [0, 0] = Inr [0, 11863283 / 2 ^ 23]"
    unfolding advantage_of_def t sum.case v s ..
  show "tensor_mean [0, 11863283 / 2 ^ 23] = Inr (11863283 / 2 ^ 24)"
    by (simp add: tensor_mean_def)
  show "\<not> \<bar>11863283 / 2 ^ 24 - 0\<bar> \<le> (1 / 10 ^ 6 :: real)" by simp
qed

section \<open>Properties of the sampling\<close>

lemma rollout_Some:
  fixes caps :: "('s, 'p, 'v) capabilities" and env :: "('e, 's) environment"
  assumes "rollout caps env \<theta> s n t e = Some y"
  shows "\<exists>ss as rs. ss \<noteq> [] \<and> length as = length ss \<and> length rs = length ss \<and>
     fst y = n + length ss \<and>
     fst (snd y) = extend_traj t ss as rs (map (policy_forward caps \<theta>) ss)"
proof (rule rollout.raw_induct [where P = "\<lambda>caps env \<theta> s n t e y.
     \<exists>ss as rs. ss \<noteq> [] \<and> length as = length ss \<and> length rs = length ss \<and>
     fst y = n + length ss \<and>
     fst (snd y) = extend_traj t ss as rs (map (policy_forward caps \<theta>) ss)", OF _ assms])
  fix f :: "('s, 'p, 'v) capabilities \<Rightarrow> ('e, 's) environment \<Rightarrow> vec \<Rightarrow> 's \<Rightarrow> nat
     \<Rightarrow> ('s, 'p) trajectories \<Rightarrow> 'e \<Rightarrow> (nat \<times> ('s, 'p) trajectories \<times> 'e) option"
  fix caps :: "('s, 'p, 'v) capabilities" and env :: "('e, 's) environment"
  fix \<theta> s n t e y
  assume IH: "\<And>caps env \<theta> s n t e y. f caps env \<theta> s n t e = Some y \<Longrightarrow>
     \<exists>ss as rs. ss \<noteq> [] \<and> length as = length ss \<and> length rs = length ss \<and>
     fst y = n + length ss \<and>
     fst (snd y) = extend_traj t ss as rs (map (policy_forward caps \<theta>) ss)"
  assume body: "(case act caps env \<theta> s e of
        ((a, p), e1) \<Rightarrow>
          (case env_step env e1 a of
             ((s', r, done), e2) \<Rightarrow>
               if done then Some (Suc n, append_step t s a r p, e2)
               else f caps env \<theta> s' (Suc n) (append_step t s a r p) e2)) = Some y"
  obtain a p e1 where ac: "act caps env \<theta> s e = ((a, p), e1)"
    by (cases "act caps env \<theta> s e") auto
  then have p: "p = policy_forward caps \<theta> s"
    by (auto simp: act_def Let_def split: prod.splits)
  obtain s' r dn e2 where st: "env_step env e1 a = ((s', r, dn), e2)"
    by (cases "env_step env e1 a") auto
  show "\<exists>ss as rs. ss \<noteq> [] \<and> length as = length ss \<and> length rs = length ss \<and>
     fst y = n + length ss \<and>
     fst (snd y) = extend_traj t ss as rs (map (policy_forward caps \<theta>) ss)"
  proof (cases dn)
    case True
    with body ac st have "y = (Suc n, append_step t s a r p, e2)" by simp
    then show ?thesis
      by (intro exI [of _ "[s]"] exI [of _ "[a]"] exI [of _ "[r]"])
         (simp add: append_step_def extend_traj_def p)
  next
    case False
    with body ac st have "f caps env \<theta> s' (Suc n) (append_step t s a r p) e2 = Some y"
      by simp
    from IH [OF this] obtain ss where "\<exists>as rs. ss \<noteq> [] \<and> length as = length ss \<and>
        length rs = length ss \<and> fst y = Suc n + length ss \<and>
        fst (snd y) = extend_traj (append_step t s a r p) ss as rs (map (policy_forward caps \<theta>) ss)" ..
    then obtain as where "\<exists>rs. ss \<noteq> [] \<and> length as = length ss \<and>
        length rs = length ss \<and> fst y = Suc n + length ss \<and>
        fst (snd y) = extend_traj (append_step t s a r p) ss as rs (map (policy_forward caps \<theta>) ss)" ..
    then obtain rs where h: "ss \<noteq> [] \<and> length as = length ss \<and>
        length rs = length ss \<and> fst y = Suc n + length ss \<and>
        fst (snd y) = extend_traj (append_step t s a r p) ss as rs (map (policy_forward caps \<theta>) ss)" ..
    then show ?thesis
      by (intro exI [of _ "s # ss"] exI [of _ "a # as"] exI [of _ "r # rs"])
         (simp add: append_step_def extend_traj_def p)
  qed
qed


lemma extend_traj_twice:
  "extend_traj (extend_traj t ss as rs ps) ss' as' rs' ps'
     = extend_traj t (ss @ ss') (as @ as') (rs @ rs') (ps @ ps')"
  by (simp add: extend_traj_def)

lemma sample_episode_Some:
  fixes caps :: "('s, 'p, 'v) capabilities" and env :: "('e, 's) environment"
  assumes "sample_episode cfg caps env \<theta> t e = Some r"
  shows "\<exists>ss as ep e'. ep \<noteq> [] \<and> length as = length ss \<and> length ep = length ss \<and>
     rollout caps env \<theta> (fst (env_reset env e)) 0 t (snd (env_reset env e))
       = Some (length ep, extend_traj t ss as ep (map (policy_forward caps \<theta>) ss), e') \<and>
     r = Inr (extend_traj t ss as (returns (reward_gamma cfg) ep) (map (policy_forward caps \<theta>) ss), e')"
proof -
  obtain s e0 where re: "env_reset env e = (s, e0)" by (cases "env_reset env e")
  from assms re obtain L t1 e1 where ro: "rollout caps env \<theta> s 0 t e0 = Some (L, t1, e1)"
    by (cases "rollout caps env \<theta> s 0 t e0") (auto simp: sample_episode_def)
  from rollout_Some [OF ro] obtain ss where "\<exists>as rs. ss \<noteq> [] \<and> length as = length ss \<and>
      length rs = length ss \<and> fst (L, t1, e1) = 0 + length ss \<and>
      fst (snd (L, t1, e1)) = extend_traj t ss as rs (map (policy_forward caps \<theta>) ss)" ..
  then obtain as where "\<exists>rs. ss \<noteq> [] \<and> length as = length ss \<and>
      length rs = length ss \<and> fst (L, t1, e1) = 0 + length ss \<and>
      fst (snd (L, t1, e1)) = extend_traj t ss as rs (map (policy_forward caps \<theta>) ss)" ..
  then obtain ep where h: "ss \<noteq> [] \<and> length as = length ss \<and>
      length ep = length ss \<and> fst (L, t1, e1) = 0 + length ss \<and>
      fst (snd (L, t1, e1)) = extend_traj t ss as ep (map (policy_forward caps \<theta>) ss)" ..
  then have L: "L = length ep" and t1: "t1 = extend_traj t ss as ep (map (policy_forward caps \<theta>) ss)"
    and ne: "ep \<noteq> []" and la: "length as = length ss" and le: "length ep = length ss"
    by auto
  have d: "discount (reward_gamma cfg) L (traj_r t1) = Inr (traj_r t @ returns (reward_gamma cfg) ep)"
    unfolding L t1 using discount_episode [of "reward_gamma cfg" ep "traj_r t"]
    by (simp add: extend_traj_def)
  have "r = Inr (extend_traj t ss as (returns (reward_gamma cfg) ep) (map (policy_forward caps \<theta>) ss), e1)"
    using assms re ro d by (simp add: sample_episode_def t1 extend_traj_def)
  with ne la le ro re L t1 show ?thesis
    by (intro exI [of _ ss] exI [of _ as] exI [of _ ep] exI [of _ e1]) simp
qed

lemma sample_trajectories_Some:
  fixes caps :: "('s, 'p, 'v) capabilities" and env :: "('e, 's) environment"
  shows "sample_trajectories cfg caps env \<theta> n t e = Some r \<Longrightarrow>
   \<exists>eps ss as e'. length eps = n \<and> [] \<notin> set eps \<and> length as = length ss \<and>
     length (concat eps) = length ss \<and>
     r = Inr (extend_traj t ss as (concat (map (returns (reward_gamma cfg)) eps))
               (map (policy_forward caps \<theta>) ss), e')"
proof (induction n arbitrary: t e)
  case 0
  have "extend_traj t [] [] [] [] = t" by (cases t) (simp add: extend_traj_def)
  with 0 show ?case
    by (intro exI [of _ "[]"] exI [of _ e]) simp
next
  case (Suc n)
  from Suc.prems obtain r1 where se: "sample_episode cfg caps env \<theta> t e = Some r1"
    by (cases "sample_episode cfg caps env \<theta> t e") auto
  from sample_episode_Some [OF se] obtain ss as ep e1 where
    h: "ep \<noteq> []" "length as = length ss" "length ep = length ss"
      "r1 = Inr (extend_traj t ss as (returns (reward_gamma cfg) ep) (map (policy_forward caps \<theta>) ss), e1)"
    by (elim exE conjE)
  let ?t1 = "extend_traj t ss as (returns (reward_gamma cfg) ep) (map (policy_forward caps \<theta>) ss)"
  from Suc.prems se h(4) have "sample_trajectories cfg caps env \<theta> n ?t1 e1 = Some r" by simp
  from Suc.IH [OF this] obtain eps ss' as' e' where
    k: "length eps = n" "[] \<notin> set eps" "length as' = length ss'" "length (concat eps) = length ss'"
      "r = Inr (extend_traj ?t1 ss' as' (concat (map (returns (reward_gamma cfg)) eps))
               (map (policy_forward caps \<theta>) ss'), e')"
    by (elim exE conjE)
  show ?case
    using h k
    by (intro exI [of _ "ep # eps"] exI [of _ "ss @ ss'"] exI [of _ "as @ as'"] exI [of _ e'])
       (simp add: extend_traj_twice)
qed

lemma toy_rollout:
  "rollout toy_caps toy_env [1 / 2] () 0 t 0 =
     Some (3, extend_traj t [(), (), ()] [1, 0, 0] [- 1, - (9 / 10), 1]
                [[1 / 2, 1 / 2], [1 / 2, 1 / 2], [1 / 2, 1 / 2]], 3)"
proof -
  have a: "act toy_caps toy_env [1 / 2] () e = ((if e = 0 then 1 else 0, [1 / 2, 1 / 2]), e)" for e
    by (simp add: act_def toy_caps_def toy_env_def)
  have s: "env_step toy_env e a = (((), [- 1, - (9 / 10), 1] ! e, e = 2), Suc e)" for e a
    by (simp add: toy_env_def)
  have r2: "rollout toy_caps toy_env [1 / 2] () (Suc (Suc 0)) t' (Suc (Suc 0)) =
      Some (Suc (Suc (Suc 0)), append_step t' () 0 1 [1 / 2, 1 / 2], Suc (Suc (Suc 0)))" for t'
    by (subst rollout.simps) (simp add: a s eval_nat_numeral)
  have r1: "rollout toy_caps toy_env [1 / 2] () (Suc 0) t' (Suc 0) =
      Some (Suc (Suc (Suc 0)),
        append_step (append_step t' () 0 (- (9 / 10)) [1 / 2, 1 / 2]) () 0 1 [1 / 2, 1 / 2],
        Suc (Suc (Suc 0)))" for t'
    by (subst rollout.simps) (simp add: a s r2 eval_nat_numeral)
  show ?thesis
    by (subst rollout.simps)
       (simp add: a s r1 append_step_def extend_traj_def eval_nat_numeral)
qed

lemma toy_sampling:
  "sample_trajectories toy_cfg toy_caps toy_env (models toy_agent ! policy toy_agent) 2
     empty_trajectories 7 = Some (Inr (toy_traj, 3))"
proof -
  have g: "reward_gamma toy_cfg = 9 / 10" by (simp add: toy_cfg_def default_config_def)
  have ret: "returns (9 / 10) [- 1, - (9 / 10), 1] = [- 1, 0, 1]" by simp
  have ep: "sample_episode toy_cfg toy_caps toy_env [1 / 2] t e =
      Some (Inr (extend_traj t [(), (), ()] [1, 0, 0] [- 1, 0, 1]
                [[1 / 2, 1 / 2], [1 / 2, 1 / 2], [1 / 2, 1 / 2]], 3))" for t e
  proof -
    have r: "env_reset toy_env e = ((), 0)" by (simp add: toy_env_def)
    have d: "discount (9 / 10) (length [- 1, - (9 / 10), 1 :: real]) (traj_r t @ [- 1, - (9 / 10), 1])
        = Inr (traj_r t @ [- 1, 0, 1])"
      unfolding discount_episode ret ..
    then have d': "discount (9 / 10) 3 (traj_r t @ [- 1, - (9 / 10), 1]) = Inr (traj_r t @ [- 1, 0, 1])"
      by (simp add: numeral_3_eq_3)
    show ?thesis
      by (simp add: sample_episode_def r toy_rollout g extend_traj_def d' del: One_nat_def)
  qed
  have th: "models toy_agent ! policy toy_agent = [1 / 2]" by (simp add: toy_agent_def)
  have two: "(2 :: nat) = Suc (Suc 0)" by simp
  show ?thesis
    unfolding th two
    by (simp add: ep del: One_nat_def)
       (simp add: extend_traj_def empty_trajectories_def toy_traj_def)
qed

text \<open>
  Claim C9. When the episodes of an iteration are collected into the one flat list, the
  loop run after an episode leaves every entry of the earlier episodes as it was and
  turns the entries of that episode into the returns of that episode alone: the list
  ends as the concatenation of the per-episode returns. For an episode of one step the
  loop changes nothing. So it is in the sampling of \<^verbatim>\<open>learn\<close>: an episode that ends
  has appended its rewards \<open>raw\<close>, at least one, to the list, and leaves the list as it
  was before the episode, followed by the returns of \<open>raw\<close>; the loop never raises.
\<close>

theorem collect_rewards_episodes:
  fixes caps :: "('s, 'p, 'v) capabilities" and env :: "('e, 's) environment"
  shows "collect_rewards g eps rs = Inr (rs @ concat (map (returns g) eps))
   \<and> discount g (length ep) (rs @ ep) = Inr (rs @ returns g ep)
   \<and> discount g (length ep) ep = Inr (returns g ep)
   \<and> discount g 1 (rs @ [r]) = Inr (rs @ [r])
   \<and> (sample_episode cfg caps env \<theta> t e = Some res \<longrightarrow>
        (\<exists>ss as raw e'. raw \<noteq> [] \<and>
           rollout caps env \<theta> (fst (env_reset env e)) 0 t (snd (env_reset env e))
             = Some (length raw, extend_traj t ss as raw (map (policy_forward caps \<theta>) ss), e') \<and>
           res = Inr (extend_traj t ss as (returns (reward_gamma cfg) raw)
                       (map (policy_forward caps \<theta>) ss), e')))
   \<and> (sample_trajectories cfg caps env \<theta> n t e = Some res' \<longrightarrow>
        (\<exists>raws t' e'. length raws = n \<and> [] \<notin> set raws \<and> res' = Inr (t', e') \<and>
           traj_r t' = traj_r t @ concat (map (returns (reward_gamma cfg)) raws)))"
proof (intro conjI impI)
  show "collect_rewards g eps rs = Inr (rs @ concat (map (returns g) eps))"
    by (rule collect_rewards_concat)
  show "discount g (length ep) (rs @ ep) = Inr (rs @ returns g ep)"
    by (rule discount_episode)
  show "discount g (length ep) ep = Inr (returns g ep)"
    using discount_episode [of g ep "[]"] by simp
  show "discount g 1 (rs @ [r]) = Inr (rs @ [r])"
    using discount_episode [of g "[r]" rs] by simp
next
  assume "sample_episode cfg caps env \<theta> t e = Some res"
  from sample_episode_Some [OF this] obtain ss as raw e' where
    "raw \<noteq> []" "rollout caps env \<theta> (fst (env_reset env e)) 0 t (snd (env_reset env e))
             = Some (length raw, extend_traj t ss as raw (map (policy_forward caps \<theta>) ss), e')"
    "res = Inr (extend_traj t ss as (returns (reward_gamma cfg) raw)
                       (map (policy_forward caps \<theta>) ss), e')"
    by (elim exE conjE)
  then show "\<exists>ss as raw e'. raw \<noteq> [] \<and>
           rollout caps env \<theta> (fst (env_reset env e)) 0 t (snd (env_reset env e))
             = Some (length raw, extend_traj t ss as raw (map (policy_forward caps \<theta>) ss), e') \<and>
           res = Inr (extend_traj t ss as (returns (reward_gamma cfg) raw)
                       (map (policy_forward caps \<theta>) ss), e')"
    by (intro exI [of _ ss] exI [of _ as] exI [of _ raw] exI [of _ e']) simp
next
  assume "sample_trajectories cfg caps env \<theta> n t e = Some res'"
  from sample_trajectories_Some [OF this] obtain raws ss as e' where
    h: "length raws = n" "[] \<notin> set raws"
      "res' = Inr (extend_traj t ss as (concat (map (returns (reward_gamma cfg)) raws))
               (map (policy_forward caps \<theta>) ss), e')"
    by (elim exE conjE)
  then show "\<exists>raws t' e'. length raws = n \<and> [] \<notin> set raws \<and> res' = Inr (t', e') \<and>
           traj_r t' = traj_r t @ concat (map (returns (reward_gamma cfg)) raws)"
    by (intro exI [of _ raws]
          exI [of _ "extend_traj t ss as (concat (map (returns (reward_gamma cfg)) raws))
               (map (policy_forward caps \<theta>) ss)"] exI [of _ e'])
       (simp add: extend_traj_def)
qed

theorem collect_rewards_episodes_witness:
  "collect_rewards (1 / 2) [[1, 2], [4], [2, 2, 4]] [] = Inr [2, 2, 4, 4, 4, 4]
   \<and> (\<exists>raws. length raws = 2 \<and> [] \<notin> set raws \<and>
         traj_r toy_traj = concat (map (returns (9 / 10)) raws))"
proof -
  note T = collect_rewards_episodes [of "1 / 2" "[[1, 2], [4], [2, 2, 4]]" "[]" "[]" 0 toy_cfg
      toy_caps toy_env "models toy_agent ! policy toy_agent" empty_trajectories 7 _ 2
      "Inr (toy_traj, 3)"]
  from T [THEN conjunct1] have a: "collect_rewards (1 / 2) [[1, 2], [4], [2, 2, 4]] [] =
      Inr [2, 2, 4, 4, 4, 4]" by simp
  have g: "reward_gamma toy_cfg = 9 / 10" by (simp add: toy_cfg_def default_config_def)
  from T [THEN conjunct2, THEN conjunct2, THEN conjunct2, THEN conjunct2, THEN conjunct2,
      rule_format, OF toy_sampling]
  obtain raws t' e' where "length raws = 2" "[] \<notin> set raws"
    "Inr (toy_traj, 3 :: nat) = (Inr (t', e') :: error + (unit, vec) trajectories \<times> nat)"
    "traj_r t' = traj_r (empty_trajectories :: (unit, vec) trajectories)
       @ concat (map (returns (reward_gamma toy_cfg)) raws)"
    by (elim exE conjE) (rule that)
  then have "length raws = 2 \<and> [] \<notin> set raws \<and>
      traj_r toy_traj = concat (map (returns (9 / 10)) raws)"
    by (simp add: g empty_trajectories_def)
  with a show ?thesis by blast
qed

section \<open>The surrogate objective of a batch\<close>

lemma ratio_self: "list_all (\<lambda>p. p \<noteq> 0) probs \<Longrightarrow> map2 (\<lambda>a b. a / b) probs probs = map (\<lambda>_. 1 :: real) probs"
  by (induction probs) simp_all

lemma times_ones:
  "length advantage = length probs \<Longrightarrow>
   map2 (\<lambda>a b. a * b) advantage (map (\<lambda>_. 1 :: real) probs) = advantage"
  by (induction advantage probs rule: list_induct2) simp_all

lemma tensor_div_self:
  "list_all (\<lambda>p. p \<noteq> 0) probs \<Longrightarrow> tensor_div probs (detach probs) = Inr (map (\<lambda>_. 1) probs)"
  by (simp add: tensor_div_def detach_def broadcast_def ratio_self list_ex_iff list_all_iff)

lemma weighted_mean_self:
  "list_all (\<lambda>p. p \<noteq> 0) probs \<Longrightarrow> length advantage = length probs \<Longrightarrow>
   weighted_mean advantage probs (detach probs) = tensor_mean advantage"
  by (simp add: weighted_mean_def tensor_div_self broadcast_def times_ones)

text \<open>
  Claim C10. In the computation of the policy gradient the old probabilities are the
  detached copy of the new ones, which are gathered from the probability vectors stored
  when the trajectories were sampled. So, for a batch whose gathered probabilities are not
  zero (an action is only sampled with a positive probability) and whose advantage has one
  entry per step, every importance ratio is \<open>1\<close> and the value of the objective is the
  mean of the advantage; for an advantage standardized in exact arithmetic that is \<open>0\<close>.
\<close>

theorem objective_is_mean_advantage:
  assumes "gather (map (data caps) b_p) b_a = Inr probs"
    and "list_all (\<lambda>p. p \<noteq> 0) probs"
    and "length advantage = length probs"
  shows "tensor_div probs (detach probs) = Inr (map (\<lambda>_. 1) probs)
     \<and> batch_objective caps b_p b_a advantage =
         (case tensor_mean advantage of Inl e \<Rightarrow> Inl e | Inr m \<Rightarrow> Inr (probs, detach probs, m))
     \<and> detach probs = probs
     \<and> (\<forall>raw. standardize raw = Inr advantage \<longrightarrow>
           batch_objective caps b_p b_a advantage = Inr (probs, probs, 0))"
proof (intro conjI allI impI)
  show "tensor_div probs (detach probs) = Inr (map (\<lambda>_. 1) probs)"
    using assms(2) by (rule tensor_div_self)
  show obj: "batch_objective caps b_p b_a advantage =
         (case tensor_mean advantage of Inl e \<Rightarrow> Inl e | Inr m \<Rightarrow> Inr (probs, detach probs, m))"
    using assms by (simp add: batch_objective_def weighted_mean_self Let_def split: sum.splits)
  show "detach probs = probs" by (simp add: detach_def)
  show "batch_objective caps b_p b_a advantage = Inr (probs, probs, 0)"
    if "standardize raw = Inr advantage" for raw
    using standardize_Inr [OF that] obj by (simp add: detach_def)
qed

theorem objective_is_mean_advantage_witness:
  "batch_objective toy_caps [[1 / 2, 1 / 2], [1 / 2, 1 / 2], [1 / 2, 1 / 2]] [1, 0, 0] [- 1, 0, 1]
     = Inr ([1 / 2, 1 / 2, 1 / 2], [1 / 2, 1 / 2, 1 / 2], 0)
   \<and> tensor_div [1 / 2, 1 / 2, 1 / 2] (detach [1 / 2, 1 / 2, 1 / 2]) = Inr [1, 1, 1]"
proof -
  have g: "gather (map (data toy_caps) [[1 / 2, 1 / 2], [1 / 2, 1 / 2], [1 / 2, 1 / 2]]) [1, 0, 0]
      = Inr [1 / 2, 1 / 2, 1 / 2]"
    by (simp add: gather_def toy_caps_def)
  have nz: "list_all (\<lambda>p. p \<noteq> 0) [1 / 2, 1 / 2, 1 / 2 :: real]" by simp
  have l: "length [- 1, 0, 1 :: real] = length [1 / 2, 1 / 2, 1 / 2 :: real]" by simp
  note T = objective_is_mean_advantage [OF g nz l]
  from T [THEN conjunct1] T [THEN conjunct2, THEN conjunct2, THEN conjunct2, rule_format,
      OF toy_standardize]
  show ?thesis by simp
qed

lemma toy_update_first:
  "update_policy toy_cfg toy_caps [- (4 / 3)] [(), (), ()] [1, 0, 0] [- 1, 0, 1] toy_agent =
     (None, toy_agent\<lparr>models := [[2 / 3], [1 / 2], [2 / 3]]\<rparr>)"
proof -
  have nz: "\<not> allclose [- (4 / 3)] 0" by (simp add: allclose_def)
  show ?thesis
    by (simp add: update_policy_def nz toy_search vector_to_parameters_def del: One_nat_def)
       (simp add: toy_agent_def)
qed

lemma toy_learn_first:
  "learn_batch toy_cfg toy_caps toy_traj 3 0 toy_agent =
     (None, toy_agent\<lparr>models := [[2 / 3], [1 / 2], [2 / 3]]\<rparr>)"
  by (simp add: learn_batch_def toy_gradient_first toy_update_first del: One_nat_def)

lemma toy_slices:
  "slice (traj_s toy_traj) 3 (3 + 3) = [(), (), ()]"
  "slice (traj_a toy_traj) 3 (3 + 3) = [1, 0, 0]"
  "slice (traj_r toy_traj) 3 (3 + 3) = [- 1, 0, 1]"
  "slice (traj_p toy_traj) 3 (3 + 3) = [[1 / 2, 1 / 2], [1 / 2, 1 / 2], [1 / 2, 1 / 2]]"
  by (simp_all add: toy_traj_def slice_def eval_nat_numeral)

text \<open>
  The claim C4 as stated says that the new action probabilities are those of the policy
  under the parameters it has when the batch is updated. In the small instance the
  trajectories are sampled with the parameter \<open>1 / 2\<close>; the update of the first batch is
  accepted and leaves the live policy with the parameter \<open>2 / 3\<close>; for the second batch
  the new probabilities are still the stored \<open>[1 / 2, 1 / 2, 1 / 2]\<close>, while the policy
  under its current parameter gives \<open>[1 / 3, 2 / 3, 2 / 3]\<close> on these states and actions.
\<close>

theorem new_probs_current_policy_counterexample:
  "sample_trajectories toy_cfg toy_caps toy_env (models toy_agent ! policy toy_agent) 2
       empty_trajectories 7 = Some (Inr (toy_traj, 3))
   \<and> traj_p toy_traj
       = map (policy_forward toy_caps (models toy_agent ! policy toy_agent)) (traj_s toy_traj)
   \<and> learn_batch toy_cfg toy_caps toy_traj 3 0 toy_agent =
       (None, toy_agent\<lparr>models := [[2 / 3], [1 / 2], [2 / 3]]\<rparr>)
   \<and> batch_objective toy_caps (slice (traj_p toy_traj) 3 (3 + 3)) (slice (traj_a toy_traj) 3 (3 + 3))
       [- 1, 0, 1] = Inr ([1 / 2, 1 / 2, 1 / 2], [1 / 2, 1 / 2, 1 / 2], 0)
   \<and> gather (map (\<lambda>s. data toy_caps (policy_forward toy_caps [2 / 3] s))
         (slice (traj_s toy_traj) 3 (3 + 3))) (slice (traj_a toy_traj) 3 (3 + 3))
       = Inr [1 / 3, 2 / 3, 2 / 3]
   \<and> [1 / 2, 1 / 2, 1 / 2] \<noteq> [1 / 3, 2 / 3, 2 / 3 :: real]"
proof (intro conjI)
  show "sample_trajectories toy_cfg toy_caps toy_env (models toy_agent ! policy toy_agent) 2
       empty_trajectories 7 = Some (Inr (toy_traj, 3))"
    by (rule toy_sampling)
  show "traj_p toy_traj =
      map (policy_forward toy_caps (models toy_agent ! policy toy_agent)) (traj_s toy_traj)"
    by (simp add: toy_traj_def toy_caps_def toy_agent_def)
  show "learn_batch toy_cfg toy_caps toy_traj 3 0 toy_agent =
       (None, toy_agent\<lparr>models := [[2 / 3], [1 / 2], [2 / 3]]\<rparr>)"
    by (rule toy_learn_first)
  show "batch_objective toy_caps (slice (traj_p toy_traj) 3 (3 + 3))
      (slice (traj_a toy_traj) 3 (3 + 3)) [- 1, 0, 1]
       = Inr ([1 / 2, 1 / 2, 1 / 2], [1 / 2, 1 / 2, 1 / 2], 0)"
    unfolding toy_slices by (rule toy_objective)
  show "gather (map (\<lambda>s. data toy_caps (policy_forward toy_caps [2 / 3] s))
         (slice (traj_s toy_traj) 3 (3 + 3))) (slice (traj_a toy_traj) 3 (3 + 3))
       = Inr [1 / 3, 2 / 3, 2 / 3]"
    unfolding toy_slices by (simp add: gather_def toy_caps_def)
  show "[1 / 2, 1 / 2, 1 / 2] \<noteq> [1 / 3, 2 / 3, 2 / 3 :: real]" by simp
qed

lemma gather_map_data:
  "gather (map (data caps) (map (policy_forward caps \<theta>) b_s)) b_a
     = gather (map (\<lambda>s. data caps (policy_forward caps \<theta> s)) b_s) b_a"
  by (simp add: comp_def)

lemma sampled_probabilities:
  fixes caps :: "('s, 'p, 'v) capabilities" and env :: "('e, 's) environment"
  assumes "sample_trajectories cfg caps env \<theta> n empty_trajectories e = Some (Inr (t, e'))"
  shows "traj_p t = map (policy_forward caps \<theta>) (traj_s t)"
proof -
  from sample_trajectories_Some [OF assms] obtain raws ss as e'' where
    "Inr (t, e') = (Inr (extend_traj empty_trajectories ss as
        (concat (map (returns (reward_gamma cfg)) raws)) (map (policy_forward caps \<theta>) ss), e'')
        :: error + ('s, 'p) trajectories \<times> 'e)"
    by (elim exE conjE) (rule that)
  then show ?thesis by (simp add: extend_traj_def empty_trajectories_def)
qed

lemma sum_list_map2_nth:
  "length xs = length ys \<Longrightarrow>
   sum_list (map2 f xs ys) = (\<Sum>k < length xs. (f (xs ! k) (ys ! k) :: real))"
proof -
  assume l: "length xs = length ys"
  have "sum_list (map2 f xs ys) = (\<Sum>k = 0..<length (map2 f xs ys). map2 f xs ys ! k)"
    by (rule sum_list_sum_nth)
  also have "\<dots> = (\<Sum>k = 0..<length xs. f (xs ! k) (ys ! k))"
    using l by (intro sum.cong) simp_all
  finally show ?thesis by (simp add: atLeast0LessThan)
qed

lemma gather_nth:
  assumes "length as = length rows" and "\<forall>k < length rows. as ! k < length (rows ! k)"
  shows "gather rows as = Inr (map2 (\<lambda>p a. p ! a) rows as)"
proof -
  have "\<not> list_ex (\<lambda>(p, a). length p \<le> a) (zip rows as)"
    using assms by (auto simp: list_ex_iff in_set_zip) (metis leD)
  with assms(1) show ?thesis by (simp add: gather_def)
qed

lemma objective_at_sum:
  assumes len: "length b_a = length b_p" "length advantage = length b_p"
      "length old_probs = length b_p" "b_p \<noteq> []"
    and nz: "list_all (\<lambda>q. q \<noteq> 0) old_probs"
    and rows: "\<forall>k < length b_p. b_a ! k < length (history caps (b_p ! k) \<theta>)"
  shows "objective_at caps b_p b_a advantage old_probs \<theta> =
     (\<Sum>k < length b_p. advantage ! k * (history caps (b_p ! k) \<theta> ! (b_a ! k) / old_probs ! k))
       / real (length b_p)"
proof -
  let ?new = "map2 (\<lambda>p a. p ! a) (map (\<lambda>p. history caps p \<theta>) b_p) b_a"
  have g: "gather (map (\<lambda>p. history caps p \<theta>) b_p) b_a = Inr ?new"
    using len rows by (intro gather_nth) simp_all
  have ln: "length ?new = length b_p" using len by simp
  have d: "tensor_div ?new old_probs = Inr (map2 (\<lambda>a b. a / b) ?new old_probs)"
    using nz len ln by (simp add: tensor_div_def broadcast_def list_ex_iff list_all_iff del: map_map)
  let ?ratio = "map2 (\<lambda>a b. a / b) ?new old_probs"
  have lr: "length ?ratio = length b_p" using len by simp
  from len have ne: "advantage \<noteq> []" "b_a \<noteq> []" "old_probs \<noteq> []" by auto
  have w: "weighted_mean advantage ?new old_probs =
      Inr (sum_list (map2 (\<lambda>a b. a * b) advantage ?ratio) / real (length b_p))"
    using len lr ne unfolding weighted_mean_def d
    by (simp add: broadcast_def tensor_mean_def del: map_map)
  have "sum_list (map2 (\<lambda>a b. a * b) advantage ?ratio) =
      (\<Sum>k < length b_p. advantage ! k * (history caps (b_p ! k) \<theta> ! (b_a ! k) / old_probs ! k))"
    using len by (subst sum_list_map2_nth) (simp_all)
  with g w show ?thesis by (simp add: objective_at_def del: map_map)
qed

lemma objective_gradient:
  assumes len: "length b_a = length b_p" "length advantage = length b_p"
      "length old_probs = length b_p" "b_p \<noteq> []"
    and nz: "list_all (\<lambda>q. q \<noteq> 0) old_probs"
    and rows: "\<forall>\<theta>. \<forall>k < length b_p. b_a ! k < length (history caps (b_p ! k) \<theta>)"
    and d: "\<forall>k < length b_p. \<forall>i < length pt.
        ((\<lambda>t. history caps (b_p ! k) (pt[i := t]) ! (b_a ! k)) has_real_derivative D k i)
          (at (pt ! i))"
  shows "is_gradient (\<lambda>\<theta>. - objective_at caps b_p b_a advantage old_probs \<theta>) pt
     (map (\<lambda>i. - ((\<Sum>k < length b_p. advantage ! k * (D k i / old_probs ! k))
        / real (length b_p))) [0..<length pt])"
proof -
  have val: "objective_at caps b_p b_a advantage old_probs \<theta> =
     (\<Sum>k < length b_p. advantage ! k * (history caps (b_p ! k) \<theta> ! (b_a ! k) / old_probs ! k))
       / real (length b_p)" for \<theta>
    using rows by (intro objective_at_sum [OF len nz]) simp
  have "((\<lambda>t. - objective_at caps b_p b_a advantage old_probs (pt[i := t])) has_real_derivative
      - ((\<Sum>k < length b_p. advantage ! k * (D k i / old_probs ! k)) / real (length b_p)))
      (at (pt ! i))" if i: "i < length pt" for i
    unfolding val
    by (intro DERIV_minus DERIV_cdivide DERIV_sum DERIV_cmult) (use d i in auto)
  then show ?thesis by (simp add: is_gradient_def)
qed


lemma is_gradient_unique: "is_gradient F \<theta> g \<Longrightarrow> is_gradient F \<theta> g' \<Longrightarrow> g = g'"
proof -
  assume a: "is_gradient F \<theta> g" and b: "is_gradient F \<theta> g'"
  show ?thesis
  proof (rule nth_equalityI)
    from a b show "length g = length g'" by (simp add: is_gradient_def)
    fix i assume "i < length g"
    with a have i: "i < length \<theta>" by (simp add: is_gradient_def)
    from a i have "((\<lambda>t. F (\<theta>[i := t])) has_real_derivative g ! i) (at (\<theta> ! i))"
      by (simp add: is_gradient_def)
    moreover from b i have "((\<lambda>t. F (\<theta>[i := t])) has_real_derivative g' ! i) (at (\<theta> ! i))"
      by (simp add: is_gradient_def)
    ultimately show "g ! i = g' ! i" by (rule DERIV_unique)
  qed
qed

lemma objective_at_recorded:
  assumes "batch_objective caps b_p b_a advantage = Inr (new_probs, old_probs, obj)"
    and "\<forall>p \<in> set b_p. history caps p \<theta> = data caps p"
  shows "objective_at caps b_p b_a advantage old_probs \<theta> = obj"
proof -
  from assms(2) have m: "map (\<lambda>p. history caps p \<theta>) b_p = map (data caps) b_p" by simp
  from assms(1) show ?thesis
    unfolding objective_at_def m
    by (auto simp: batch_objective_def Let_def split: sum.splits)
qed

text \<open>
  Claim C4, as the code has it. For every batch the new probabilities are the stored
  probability vectors gathered at the actions of the batch, and the old probabilities are
  the same values, detached: when the stored vectors are those of the policy under the
  parameters \<open>\<theta>\<close> of the time of sampling, both are the probabilities under \<open>\<theta>\<close>, whatever
  the parameters of the live policy are by now, and the vectors that the sampling of an
  iteration stores are those of the policy under the parameters of that time. The
  objective depends on the parameters through the histories of the stored variables; at
  parameters where the histories give the stored values it has the value \<open>obj\<close>. The
  vector \<open>pg\<close> of the batch is what differentiation returns for the negated objective at
  the parameters the variables were recorded at. When differentiation returns a gradient
  of that function, \<open>pg\<close> is the flattened gradient of the negative objective
  \<open>- mean (advantage \<sqdot> new_probs / old_probs)\<close> by the parameters of the policy: its
  entry \<open>i\<close> is \<open>- mean (advantage \<sqdot> D\<^sub>i new_probs / old_probs)\<close>, where \<open>D\<^sub>i\<close> is the
  partial derivative by the parameter \<open>i\<close>.
\<close>

theorem new_probs_are_collected_probs:
  fixes caps :: "('s, 'p, 'v) capabilities" and env :: "('e, 's) environment"
  shows "(batch_objective caps b_p b_a advantage = Inr (new_probs, old_probs, obj) \<longrightarrow>
      gather (map (data caps) b_p) b_a = Inr new_probs \<and> old_probs = new_probs \<and>
      (\<forall>\<theta>. b_p = map (policy_forward caps \<theta>) b_s \<longrightarrow>
         gather (map (\<lambda>s. data caps (policy_forward caps \<theta> s)) b_s) b_a = Inr new_probs) \<and>
      (\<forall>\<theta>. (\<forall>p \<in> set b_p. history caps p \<theta> = data caps p) \<longrightarrow>
         objective_at caps b_p b_a advantage old_probs \<theta> = obj))
   \<and> (batch_gradient caps trajectories batch_size index a = (Inr (b_s', b_a', advantage', pg), a1)
        \<longrightarrow>
        b_a' = slice (traj_a trajectories) index (index + batch_size) \<and>
        (\<exists>probs m. batch_objective caps (slice (traj_p trajectories) index (index + batch_size))
             b_a' advantage' = Inr (probs, probs, m) \<and>
           pg = policy_gradient caps (slice (traj_p trajectories) index (index + batch_size))
                  b_a' advantage' probs \<and>
           pg = flatten_grad caps
                  (\<lambda>\<theta>. - objective_at caps (slice (traj_p trajectories) index (index + batch_size))
                          b_a' advantage' probs \<theta>)
                  (recorded_at caps (hd (slice (traj_p trajectories) index (index + batch_size))))))
   \<and> (is_gradient (\<lambda>\<theta>. - objective_at caps b_p b_a advantage old_probs \<theta>)
          (recorded_at caps (hd b_p))
          (flatten_grad caps (\<lambda>\<theta>. - objective_at caps b_p b_a advantage old_probs \<theta>)
             (recorded_at caps (hd b_p))) \<longrightarrow>
        is_gradient (\<lambda>\<theta>. - objective_at caps b_p b_a advantage old_probs \<theta>)
          (recorded_at caps (hd b_p)) (policy_gradient caps b_p b_a advantage old_probs) \<and>
        (length b_a = length b_p \<and> length advantage = length b_p \<and>
         length old_probs = length b_p \<and> b_p \<noteq> [] \<and> list_all (\<lambda>q. q \<noteq> 0) old_probs \<and>
         (\<forall>\<theta>. \<forall>k < length b_p. b_a ! k < length (history caps (b_p ! k) \<theta>)) \<and>
         (\<forall>k < length b_p. \<forall>i < length (recorded_at caps (hd b_p)).
            ((\<lambda>t. history caps (b_p ! k) ((recorded_at caps (hd b_p))[i := t]) ! (b_a ! k))
               has_real_derivative D k i) (at (recorded_at caps (hd b_p) ! i))) \<longrightarrow>
         policy_gradient caps b_p b_a advantage old_probs =
           map (\<lambda>i. - ((\<Sum>k < length b_p. advantage ! k * (D k i / old_probs ! k))
                  / real (length b_p))) [0..<length (recorded_at caps (hd b_p))]))
   \<and> (sample_trajectories cfg caps env \<theta>' n empty_trajectories e = Some (Inr (sampled, e')) \<longrightarrow>
        traj_p sampled = map (policy_forward caps \<theta>') (traj_s sampled))"
proof (intro conjI impI allI)
  assume o: "batch_objective caps b_p b_a advantage = Inr (new_probs, old_probs, obj)"
  then show g: "gather (map (data caps) b_p) b_a = Inr new_probs"
    by (auto simp: batch_objective_def Let_def split: sum.splits)
  from o show "old_probs = new_probs"
    by (auto simp: batch_objective_def Let_def detach_def split: sum.splits)
  show "gather (map (\<lambda>s. data caps (policy_forward caps \<theta> s)) b_s) b_a = Inr new_probs"
    if "b_p = map (policy_forward caps \<theta>) b_s" for \<theta>
    using g unfolding that gather_map_data .
  show "objective_at caps b_p b_a advantage old_probs \<theta> = obj"
    if "\<forall>p \<in> set b_p. history caps p \<theta> = data caps p" for \<theta>
    using o that by (rule objective_at_recorded)
next
  assume b: "batch_gradient caps trajectories batch_size index a
      = (Inr (b_s', b_a', advantage', pg), a1)"
  then show "b_a' = slice (traj_a trajectories) index (index + batch_size)"
    by (auto simp: batch_gradient_def Let_def split: sum.splits prod.splits)
  from b show "\<exists>probs m. batch_objective caps (slice (traj_p trajectories) index (index + batch_size))
             b_a' advantage' = Inr (probs, probs, m) \<and>
           pg = policy_gradient caps (slice (traj_p trajectories) index (index + batch_size))
                  b_a' advantage' probs \<and>
           pg = flatten_grad caps
                  (\<lambda>\<theta>. - objective_at caps (slice (traj_p trajectories) index (index + batch_size))
                          b_a' advantage' probs \<theta>)
                  (recorded_at caps (hd (slice (traj_p trajectories) index (index + batch_size))))"
    by (auto simp: batch_gradient_def batch_objective_def policy_gradient_def detach_def Let_def
        split: sum.splits prod.splits)
next
  assume r: "is_gradient (\<lambda>\<theta>. - objective_at caps b_p b_a advantage old_probs \<theta>)
          (recorded_at caps (hd b_p))
          (flatten_grad caps (\<lambda>\<theta>. - objective_at caps b_p b_a advantage old_probs \<theta>)
             (recorded_at caps (hd b_p)))"
  then show pgr: "is_gradient (\<lambda>\<theta>. - objective_at caps b_p b_a advantage old_probs \<theta>)
          (recorded_at caps (hd b_p)) (policy_gradient caps b_p b_a advantage old_probs)"
    by (simp add: policy_gradient_def)
  assume h: "length b_a = length b_p \<and> length advantage = length b_p \<and>
         length old_probs = length b_p \<and> b_p \<noteq> [] \<and> list_all (\<lambda>q. q \<noteq> 0) old_probs \<and>
         (\<forall>\<theta>. \<forall>k < length b_p. b_a ! k < length (history caps (b_p ! k) \<theta>)) \<and>
         (\<forall>k < length b_p. \<forall>i < length (recorded_at caps (hd b_p)).
            ((\<lambda>t. history caps (b_p ! k) ((recorded_at caps (hd b_p))[i := t]) ! (b_a ! k))
               has_real_derivative D k i) (at (recorded_at caps (hd b_p) ! i)))"
  then have len: "length b_a = length b_p" "length advantage = length b_p"
      "length old_probs = length b_p" "b_p \<noteq> []"
    and nz: "list_all (\<lambda>q. q \<noteq> 0) old_probs"
    and rows: "\<forall>\<theta>. \<forall>k < length b_p. b_a ! k < length (history caps (b_p ! k) \<theta>)"
    and d: "\<forall>k < length b_p. \<forall>i < length (recorded_at caps (hd b_p)).
            ((\<lambda>t. history caps (b_p ! k) ((recorded_at caps (hd b_p))[i := t]) ! (b_a ! k))
               has_real_derivative D k i) (at (recorded_at caps (hd b_p) ! i))"
    by simp_all
  from is_gradient_unique [OF pgr objective_gradient [OF len nz rows d]]
  show "policy_gradient caps b_p b_a advantage old_probs =
           map (\<lambda>i. - ((\<Sum>k < length b_p. advantage ! k * (D k i / old_probs ! k))
                  / real (length b_p))) [0..<length (recorded_at caps (hd b_p))]" .
next
  assume "sample_trajectories cfg caps env \<theta>' n empty_trajectories e = Some (Inr (sampled, e'))"
  then show "traj_p sampled = map (policy_forward caps \<theta>') (traj_s sampled)"
    by (rule sampled_probabilities)
qed


theorem new_probs_are_collected_probs_witness:
  "gather (map (data toy_caps) [[1 / 2, 1 / 2], [1 / 2, 1 / 2], [1 / 2, 1 / 2]]) [1, 0, 0]
     = Inr [1 / 2, 1 / 2, 1 / 2]
   \<and> gather (map (\<lambda>s. data toy_caps (policy_forward toy_caps [1 / 2] s)) [(), (), ()]) [1, 0, 0]
     = Inr [1 / 2, 1 / 2, 1 / 2]
   \<and> is_gradient
        (\<lambda>\<theta>. - objective_at toy_caps [[1 / 2, 1 / 2], [1 / 2, 1 / 2], [1 / 2, 1 / 2]] [1, 0, 0]
                [- 1, 0, 1] [1 / 2, 1 / 2, 1 / 2] \<theta>) [1 / 2]
        (policy_gradient toy_caps [[1 / 2, 1 / 2], [1 / 2, 1 / 2], [1 / 2, 1 / 2]] [1, 0, 0]
           [- 1, 0, 1] [1 / 2, 1 / 2, 1 / 2])
   \<and> policy_gradient toy_caps [[1 / 2, 1 / 2], [1 / 2, 1 / 2], [1 / 2, 1 / 2]] [1, 0, 0]
        [- 1, 0, 1] [1 / 2, 1 / 2, 1 / 2] = [- (4 / 3)]"
proof -
  let ?B = "[[1 / 2, 1 / 2], [1 / 2, 1 / 2], [1 / 2, 1 / 2 :: real]]"
  let ?F = "\<lambda>\<theta>. - objective_at toy_caps ?B [1, 0, 0] [- 1, 0, 1] [1 / 2, 1 / 2, 1 / 2] \<theta>"
  let ?D = "\<lambda>(k :: nat) (i :: nat). if k = 0 then - 1 else (1 :: real)"
  have m: "?B = map (policy_forward toy_caps [1 / 2]) [(), (), ()]"
    by (simp add: toy_caps_def)
  note T = new_probs_are_collected_probs [where caps = toy_caps and b_p = ?B and b_a = "[1, 0, 0]"
      and advantage = "[- 1, 0, 1]" and new_probs = "[1 / 2, 1 / 2, 1 / 2]"
      and old_probs = "[1 / 2, 1 / 2, 1 / 2]" and obj = 0 and b_s = "[(), (), ()]" and D = ?D]
  note T1 = T [THEN conjunct1, rule_format, OF toy_objective]
  have rec: "recorded_at toy_caps (hd ?B) = [1 / 2]"
    by (simp add: toy_caps_def)
  have sel: "flatten_grad toy_caps F \<theta> = [F [\<theta> ! 0 + 1] - F [\<theta> ! 0]]" for F \<theta>
    by (simp add: toy_caps_def)
  have fg: "flatten_grad toy_caps ?F [1 / 2] = [- (4 / 3)]"
    unfolding sel toy_objective_at by simp
  have ig: "is_gradient ?F [1 / 2] [- (4 / 3)]"
    unfolding toy_objective_at is_gradient_def
    by (auto intro!: derivative_eq_intros)
  have r: "is_gradient ?F (recorded_at toy_caps (hd ?B))
      (flatten_grad toy_caps ?F (recorded_at toy_caps (hd ?B)))"
    unfolding rec fg by (rule ig)
  note T3 = T [THEN conjunct2, THEN conjunct2, THEN conjunct1, THEN mp, OF r]
  have rows: "\<forall>\<theta>. \<forall>k < length ?B. [1, 0, 0] ! k < length (history toy_caps (?B ! k) \<theta>)"
    by (auto simp: toy_caps_def less_Suc_eq)
  have d: "\<forall>k < length ?B. \<forall>i < length (recorded_at toy_caps (hd ?B)).
      ((\<lambda>t. history toy_caps (?B ! k) ((recorded_at toy_caps (hd ?B))[i := t]) ! ([1, 0, 0] ! k))
         has_real_derivative ?D k i) (at (recorded_at toy_caps (hd ?B) ! i))"
    unfolding rec by (auto simp: toy_caps_def less_Suc_eq intro!: derivative_eq_intros)
  have "policy_gradient toy_caps ?B [1, 0, 0] [- 1, 0, 1] [1 / 2, 1 / 2, 1 / 2] =
      map (\<lambda>i. - ((\<Sum>k < length ?B. [- 1, 0, 1] ! k * (?D k i / [1 / 2, 1 / 2, 1 / 2] ! k))
        / real (length ?B))) [0..<length (recorded_at toy_caps (hd ?B))]"
    using T3 [THEN conjunct2] rows d by simp
  also have "\<dots> = [- (4 / 3)]"
    unfolding rec by (simp add: numeral_3_eq_3)
  finally have pg: "policy_gradient toy_caps ?B [1, 0, 0] [- 1, 0, 1] [1 / 2, 1 / 2, 1 / 2]
      = [- (4 / 3)]" .
  from T1 [THEN conjunct1] T1 [THEN conjunct2, THEN conjunct2, THEN conjunct1, rule_format, OF m]
    T3 [THEN conjunct1, unfolded rec] pg
  show ?thesis by (intro conjI)
qed


end
